theory Spec2Isabelle
  imports Complex_Main "HOL-Library.Log_Nat"
begin

section \<open>Python values and failures\<close>

text \<open>
  The package \<open>imin\<close> reads one pixel of a raster image at a coordinate that may be
  fractional (\<open>imin/__init__.py\<close>) and builds on it the drivers \<open>rescale\<close>
  (\<open>imin/rescale.py\<close>) and \<open>displace\<close> (\<open>imin/displace.py\<close>).

  An image is a nested list \<open>list[list[list[int]]]\<close>: rows, pixels of a row, channels
  of a pixel. Coordinates are Python numbers (\<open>int | float\<close>); in the kernels below
  they are exact reals, an integer \<open>n\<close> being \<open>of_int n\<close>, and the arithmetic on
  them is exact. The bilinear kernel is given a second time, as \<open>blin64\<close>, with the
  binary64 rounding of every operation written out; what depends on that rounding is
  stated about \<open>blin64\<close>. The arguments \<open>edge\<close> and \<open>method\<close> are typed
  \<open>int | str\<close> in the source and compared with \<open>==\<close> against literals; they are kept
  as such a value.
\<close>

type_synonym pixelvalue = "int list"
type_synonym image = "int list list list"

datatype arg = IntArg int | StrArg string

datatype error = IndexError | ZeroDivisionError | ValueError

definition ebind :: "error + 'a \<Rightarrow> ('a \<Rightarrow> error + 'b) \<Rightarrow> error + 'b" where
  "ebind r k = (case r of Inl e \<Rightarrow> Inl e | Inr v \<Rightarrow> k v)"

text \<open>A list comprehension whose element expression may raise: the first failure wins.\<close>

fun emap :: "('a \<Rightarrow> error + 'b) \<Rightarrow> 'a list \<Rightarrow> error + 'b list" where
  "emap f [] = Inr []"
| "emap f (x # xs) = ebind (f x) (\<lambda>v. ebind (emap f xs) (\<lambda>vs. Inr (v # vs)))"

text \<open>\<open>range(n)\<close>: empty when \<open>n \<le> 0\<close>.\<close>

definition py_range :: "int \<Rightarrow> int list" where
  "py_range n = map int [0..<nat n]"

text \<open>\<open>xs[i]\<close>: a negative index counts from the end, anything out of range raises.\<close>

definition py_index :: "'a list \<Rightarrow> int \<Rightarrow> error + 'a" where
  "py_index xs i =
     (if 0 \<le> i \<and> i < int (length xs) then Inr (xs ! nat i)
      else if i < 0 \<and> - int (length xs) \<le> i then Inr (xs ! nat (int (length xs) + i))
      else Inl IndexError)"

text \<open>\<open>int(x)\<close> on a number: truncation toward zero.\<close>

definition py_int :: "real \<Rightarrow> int" where
  "py_int x = (if 0 \<le> x then \<lfloor>x\<rfloor> else \<lceil>x\<rceil>)"

text \<open>
  \<open>[*map(mul, p, (w,) * Z)]\<close>: \<open>map\<close> over two iterables stops at the shorter one.
\<close>

definition scaled :: "pixelvalue \<Rightarrow> real \<Rightarrow> nat \<Rightarrow> real list" where
  "scaled p w Z = map2 (\<lambda>c v. of_int c * v) p (replicate Z w)"

definition intaddup2 :: "real list \<Rightarrow> real list \<Rightarrow> pixelvalue" where
  "intaddup2 as bs = map2 (\<lambda>a b. py_int (a + b)) as bs"

definition intaddup3 :: "real list \<Rightarrow> real list \<Rightarrow> real list \<Rightarrow> pixelvalue" where
  "intaddup3 as bs cs = map2 (\<lambda>a (b, c). py_int (a + b + c)) as (zip bs cs)"

definition intaddup4 :: "real list \<Rightarrow> real list \<Rightarrow> real list \<Rightarrow> real list \<Rightarrow> pixelvalue" where
  "intaddup4 as bs cs ds = map2 (\<lambda>(a, b) (c, d). py_int (a + b + c + d)) (zip as bs) (zip cs ds)"

section \<open>Reading one pixel: \<open>imin/__init__.py\<close>\<close>

text \<open>
  The three lines \<open>Y = len(source_image)\<close>, \<open>X = len(source_image[0])\<close>,
  \<open>Z = len(source_image[0][0])\<close> that open \<open>src\<close> and the drivers. They raise
  \<open>IndexError\<close> on an image with no row or with an empty first row.
\<close>

definition sizes :: "image \<Rightarrow> error + (int \<times> int \<times> nat)" where
  "sizes source_image =
     ebind (py_index source_image 0) (\<lambda>row0.
     ebind (py_index row0 0) (\<lambda>px0.
       Inr (int (length source_image), int (length row0), length px0)))"

text \<open>
  \<open>src\<close>, and word for word \<open>_src\<close> of \<open>rescale.py\<close> and of \<open>displace.py\<close>.
  Every edge value other than \<open>1\<close>, \<open>'repeat'\<close>, \<open>2\<close>, \<open>'wrap'\<close> reaches the
  last branch.
\<close>

definition src :: "image \<Rightarrow> real \<Rightarrow> real \<Rightarrow> arg \<Rightarrow> error + pixelvalue" where
  "src source_image x y edge =
     ebind (sizes source_image) (\<lambda>(Y, X, Z).
       if edge = IntArg 1 \<or> edge = StrArg ''repeat'' then
         (let cx = min (X - 1) (max 0 (py_int x));
              cy = min (Y - 1) (max 0 (py_int y))
          in ebind (py_index source_image cy) (\<lambda>row. py_index row cx))
       else if edge = IntArg 2 \<or> edge = StrArg ''wrap'' then
         (let cx = py_int x mod X;
              cy = py_int y mod Y
          in ebind (py_index source_image cy) (\<lambda>row. py_index row cx))
       else if x < 0 \<or> y < 0 \<or> x > of_int (X - 1) \<or> y > of_int (Y - 1) then
         Inr (replicate Z 0)
       else
         ebind (py_index source_image (py_int y)) (\<lambda>row. py_index row (py_int x)))"

text \<open>
  The lower cell of a coordinate as \<open>blin\<close>, \<open>baryc\<close>, \<open>_xlin\<close> and \<open>_ylin\<close>
  compute it: \<open>int(x)\<close> when \<open>x >= 0\<close>, else \<open>int(x) - 1\<close>.
\<close>

definition cell :: "real \<Rightarrow> int" where
  "cell x = (if x \<ge> 0 then py_int x else py_int x - 1)"

text \<open>The four weights of \<open>blin\<close>, as functions of the coordinate and the lower cell.\<close>

definition w00 :: "real \<Rightarrow> real \<Rightarrow> real" where
  "w00 x y = (of_int (cell x + 1) - x) * (of_int (cell y + 1) - y)"

definition w01 :: "real \<Rightarrow> real \<Rightarrow> real" where
  "w01 x y = (of_int (cell x + 1) - x) * (y - of_int (cell y))"

definition w10 :: "real \<Rightarrow> real \<Rightarrow> real" where
  "w10 x y = (x - of_int (cell x)) * (of_int (cell y + 1) - y)"

definition w11 :: "real \<Rightarrow> real \<Rightarrow> real" where
  "w11 x y = (x - of_int (cell x)) * (y - of_int (cell y))"

definition blin :: "image \<Rightarrow> real \<Rightarrow> real \<Rightarrow> arg \<Rightarrow> error + pixelvalue" where
  "blin source_image x y edge =
     ebind (sizes source_image) (\<lambda>(Y, X, Z).
       let x0 = cell x; y0 = cell y in
       if x = of_int x0 \<and> y = of_int y0 then src source_image (of_int x0) (of_int y0) edge
       else
         let x1 = x0 + 1; y1 = y0 + 1 in
         ebind (src source_image (of_int x0) (of_int y0) edge) (\<lambda>p00.
         ebind (src source_image (of_int x0) (of_int y1) edge) (\<lambda>p01.
         ebind (src source_image (of_int x1) (of_int y0) edge) (\<lambda>p10.
         ebind (src source_image (of_int x1) (of_int y1) edge) (\<lambda>p11.
           Inr (intaddup4 (scaled p00 (w00 x y) Z) (scaled p01 (w01 x y) Z)
                          (scaled p10 (w10 x y) Z) (scaled p11 (w11 x y) Z)))))))"

text \<open>\<open>Z_COLOR\<close>: the number of channels that enter the choice of the diagonal.\<close>

definition Z_COLOR :: "nat \<Rightarrow> int" where
  "Z_COLOR Z = (if Z = 1 \<or> Z = 3 then int Z else min (int Z - 1) 3)"

text \<open>
  \<open>sum(p[:Z_COLOR])\<close>. A slice bound below zero counts from the end (\<open>Z_COLOR\<close>
  is \<open>-1\<close> when the first pixel of the image has no channel).
\<close>

definition colour_sum :: "int \<Rightarrow> pixelvalue \<Rightarrow> int" where
  "colour_sum zc p =
     sum_list (if 0 \<le> zc then take (nat zc) p else take (length p - nat (- zc)) p)"

text \<open>
  The test of \<open>baryc\<close> that selects the branch of the diagonal through corners 1 and 3;
  when it is false the code falls through to the branch of the diagonal through
  corners 2 and 4.
\<close>

definition diagonal13 :: "int \<Rightarrow> pixelvalue \<Rightarrow> pixelvalue \<Rightarrow> pixelvalue \<Rightarrow> pixelvalue \<Rightarrow> bool" where
  "diagonal13 zc p1 p2 p3 p4 =
     (\<bar>colour_sum zc p1 - colour_sum zc p3\<bar> < \<bar>colour_sum zc p2 - colour_sum zc p4\<bar>)"

text \<open>The bodies of the four triangles, with corner 1 at \<open>(x1, y1)\<close>.\<close>

definition triangle134 :: "nat \<Rightarrow> real \<Rightarrow> real \<Rightarrow> int \<Rightarrow> int \<Rightarrow> pixelvalue \<Rightarrow> pixelvalue \<Rightarrow> pixelvalue \<Rightarrow> pixelvalue" where
  "triangle134 Z x y x1 y1 p1 p3 p4 =
     (let a = x - of_int x1; b = of_int (y1 + 1) - y; c = 1 - (a + b)
      in intaddup3 (scaled p1 b Z) (scaled p3 a Z) (scaled p4 c Z))"

definition triangle123 :: "nat \<Rightarrow> real \<Rightarrow> real \<Rightarrow> int \<Rightarrow> int \<Rightarrow> pixelvalue \<Rightarrow> pixelvalue \<Rightarrow> pixelvalue \<Rightarrow> pixelvalue" where
  "triangle123 Z x y x1 y1 p1 p2 p3 =
     (let a = of_int (x1 + 1) - x; b = y - of_int y1; c = 1 - (a + b)
      in intaddup3 (scaled p1 a Z) (scaled p3 b Z) (scaled p2 c Z))"

definition triangle124 :: "nat \<Rightarrow> real \<Rightarrow> real \<Rightarrow> int \<Rightarrow> int \<Rightarrow> pixelvalue \<Rightarrow> pixelvalue \<Rightarrow> pixelvalue \<Rightarrow> pixelvalue" where
  "triangle124 Z x y x1 y1 p1 p2 p4 =
     (let a = x - of_int x1; b = y - of_int y1; c = 1 - (a + b)
      in intaddup3 (scaled p1 c Z) (scaled p2 a Z) (scaled p4 b Z))"

definition triangle234 :: "nat \<Rightarrow> real \<Rightarrow> real \<Rightarrow> int \<Rightarrow> int \<Rightarrow> pixelvalue \<Rightarrow> pixelvalue \<Rightarrow> pixelvalue \<Rightarrow> pixelvalue" where
  "triangle234 Z x y x1 y1 p2 p3 p4 =
     (let a = of_int (x1 + 1) - x; b = of_int (y1 + 1) - y; c = 1 - (a + b)
      in intaddup3 (scaled p2 b Z) (scaled p3 c Z) (scaled p4 a Z))"

text \<open>
  \<open>baryc\<close>, and \<open>_baryc\<close> of \<open>rescale.py\<close> and \<open>displace.py\<close>, which differ only in
  reading the corners through \<open>_pixel\<close>, an \<open>lru_cache\<close> around \<open>_src\<close> on the same
  image: a cache of a function without effects returns what the function returns.
\<close>

definition baryc :: "image \<Rightarrow> real \<Rightarrow> real \<Rightarrow> arg \<Rightarrow> error + pixelvalue" where
  "baryc source_image x y edge =
     ebind (sizes source_image) (\<lambda>(Y, X, Z).
       let x1 = cell x; y1 = cell y;
           x2 = x1 + 1; y2 = y1;
           x3 = x2; y3 = y1 + 1;
           x4 = x1; y4 = y3
       in
       ebind (src source_image (of_int x1) (of_int y1) edge) (\<lambda>p1.
         if x = of_int x1 \<and> y = of_int y1 then Inr p1
         else
           ebind (src source_image (of_int x2) (of_int y2) edge) (\<lambda>p2.
           ebind (src source_image (of_int x3) (of_int y3) edge) (\<lambda>p3.
           ebind (src source_image (of_int x4) (of_int y4) edge) (\<lambda>p4.
             if diagonal13 (Z_COLOR Z) p1 p2 p3 p4 then
               (if x - of_int x1 < y - of_int y1
                then Inr (triangle134 Z x y x1 y1 p1 p3 p4)
                else Inr (triangle123 Z x y x1 y1 p1 p2 p3))
             else
               (if x - of_int x1 < of_int y3 - y
                then Inr (triangle124 Z x y x1 y1 p1 p2 p4)
                else Inr (triangle234 Z x y x1 y1 p2 p3 p4)))))))"

definition pixel :: "image \<Rightarrow> real \<Rightarrow> real \<Rightarrow> arg \<Rightarrow> arg \<Rightarrow> error + pixelvalue" where
  "pixel source_image x y edge method =
     (if method = IntArg 1 \<or> method = StrArg ''bilinear'' then blin source_image x y edge
      else if method = IntArg 2 \<or> method = StrArg ''barycentric'' then baryc source_image x y edge
      else if method = IntArg 0 \<or> method = StrArg ''nearest'' then src source_image x y edge
      else Inl ValueError)"

section \<open>Rescaling: \<open>imin/rescale.py\<close>\<close>

text \<open>
  \<open>_xlin\<close> and \<open>_ylin\<close>, local to \<open>bilinear\<close>; \<open>Z\<close> is the channel count of the
  source image that the closure captures. The upper cell is \<open>int(x) + 1\<close>. \<open>_xlin\<close>
  reads the source image through \<open>_pixel_1\<close> (an \<open>lru_cache\<close> around \<open>_src\<close>) and
  \<open>_ylin\<close> reads the intermediate image through \<open>_pixel_2\<close>.
\<close>

definition xlin :: "image \<Rightarrow> nat \<Rightarrow> real \<Rightarrow> int \<Rightarrow> arg \<Rightarrow> error + pixelvalue" where
  "xlin source_image Z x y edge =
     (let x0 = cell x; x1 = py_int x + 1 in
      if x = of_int x0 then src source_image (of_int x0) (of_int y) edge
      else
        let w0 = of_int x1 - x; w1 = x - of_int x0 in
        ebind (src source_image (of_int x0) (of_int y) edge) (\<lambda>px0.
        ebind (src source_image (of_int x1) (of_int y) edge) (\<lambda>px1.
          Inr (intaddup2 (scaled px0 w0 Z) (scaled px1 w1 Z)))))"

definition ylin :: "image \<Rightarrow> nat \<Rightarrow> int \<Rightarrow> real \<Rightarrow> arg \<Rightarrow> error + pixelvalue" where
  "ylin intermediate_image Z x y edge =
     (let y0 = cell y; y1 = py_int y + 1 in
      if y = of_int y0 then src intermediate_image (of_int x) (of_int y0) edge
      else
        let w0 = of_int y1 - y; w1 = y - of_int y0 in
        ebind (src intermediate_image (of_int x) (of_int y0) edge) (\<lambda>px0.
        ebind (src intermediate_image (of_int x) (of_int y1) edge) (\<lambda>px1.
          Inr (intaddup2 (scaled px0 w0 Z) (scaled px1 w1 Z)))))"

text \<open>
  \<open>bilinear\<close> of \<open>rescale.py\<close>. The two quotients \<open>(X - 1) / (XNEW - 1)\<close> and
  \<open>(Y - 1) / (YNEW - 1)\<close> are computed before anything else is done with the target
  size, and \<open>/\<close> raises \<open>ZeroDivisionError\<close> on a zero divisor.
\<close>

definition rescale_bilinear :: "image \<Rightarrow> int \<Rightarrow> int \<Rightarrow> arg \<Rightarrow> error + image" where
  "rescale_bilinear source_image XNEW YNEW edge =
     ebind (sizes source_image) (\<lambda>(Y, X, Z).
       if XNEW - 1 = 0 then Inl ZeroDivisionError
       else if YNEW - 1 = 0 then Inl ZeroDivisionError
       else
         let x_resize = of_int (X - 1) / of_int (XNEW - 1);
             y_resize = of_int (Y - 1) / of_int (YNEW - 1)
         in
         ebind (if XNEW = X then Inr source_image
                else emap (\<lambda>y. emap (\<lambda>x. xlin source_image Z (x_resize * of_int x) y edge)
                                      (py_range XNEW))
                          (py_range Y)) (\<lambda>intermediate_image.
           if YNEW = Y then Inr intermediate_image
           else emap (\<lambda>y. emap (\<lambda>x. ylin intermediate_image Z x (y_resize * of_int y) edge)
                                 (py_range XNEW))
                     (py_range YNEW)))"

text \<open>
  \<open>barycentric\<close> of \<open>rescale.py\<close>. The size of the cache around \<open>_src\<close>
  (\<open>8 if X * Y > 256 * 256 else None\<close>) changes no value and is left out.
\<close>

definition rescale_barycentric :: "image \<Rightarrow> int \<Rightarrow> int \<Rightarrow> arg \<Rightarrow> error + image" where
  "rescale_barycentric source_image XNEW YNEW edge =
     ebind (sizes source_image) (\<lambda>(Y, X, Z).
       if XNEW - 1 = 0 then Inl ZeroDivisionError
       else if YNEW - 1 = 0 then Inl ZeroDivisionError
       else
         let x_resize = of_int (X - 1) / of_int (XNEW - 1);
             y_resize = of_int (Y - 1) / of_int (YNEW - 1)
         in
         emap (\<lambda>y. emap (\<lambda>x. baryc source_image (x_resize * of_int x) (y_resize * of_int y) edge)
                         (py_range XNEW))
              (py_range YNEW))"

definition rescale :: "image \<Rightarrow> int \<Rightarrow> int \<Rightarrow> arg \<Rightarrow> arg \<Rightarrow> error + image" where
  "rescale source_image XNEW YNEW edge method =
     (if method = IntArg 1 \<or> method = StrArg ''bilinear''
      then rescale_bilinear source_image XNEW YNEW edge
      else if method = IntArg 2 \<or> method = StrArg ''barycentric''
      then rescale_barycentric source_image XNEW YNEW edge
      else Inl ValueError)"

section \<open>Displacement: \<open>imin/displace.py\<close>\<close>

text \<open>
  \<open>fx\<close> and \<open>fy\<close> are the caller's functions of the output position. \<open>_blin\<close> and
  \<open>_baryc\<close> of this module are \<open>blin\<close> and \<open>baryc\<close> over the cached \<open>_src\<close>; both
  drivers start with \<open>Z = len(source_image[0][0])\<close>.
\<close>

definition displace_bilinear ::
    "image \<Rightarrow> (int \<Rightarrow> int \<Rightarrow> real) \<Rightarrow> (int \<Rightarrow> int \<Rightarrow> real) \<Rightarrow> int \<Rightarrow> int \<Rightarrow> arg \<Rightarrow> error + image" where
  "displace_bilinear source_image fx fy XNEW YNEW edge =
     ebind (sizes source_image) (\<lambda>(Y, X, Z).
       emap (\<lambda>y. emap (\<lambda>x. blin source_image (fx x y) (fy x y) edge) (py_range XNEW))
            (py_range YNEW))"

definition displace_barycentric ::
    "image \<Rightarrow> (int \<Rightarrow> int \<Rightarrow> real) \<Rightarrow> (int \<Rightarrow> int \<Rightarrow> real) \<Rightarrow> int \<Rightarrow> int \<Rightarrow> arg \<Rightarrow> error + image" where
  "displace_barycentric source_image fx fy XNEW YNEW edge =
     ebind (sizes source_image) (\<lambda>(Y, X, Z).
       emap (\<lambda>y. emap (\<lambda>x. baryc source_image (fx x y) (fy x y) edge) (py_range XNEW))
            (py_range YNEW))"

definition displace ::
    "image \<Rightarrow> (int \<Rightarrow> int \<Rightarrow> real) \<Rightarrow> (int \<Rightarrow> int \<Rightarrow> real) \<Rightarrow> int \<Rightarrow> int \<Rightarrow> arg \<Rightarrow> arg \<Rightarrow> error + image" where
  "displace source_image fx fy XNEW YNEW edge method =
     (if method = IntArg 1 \<or> method = StrArg ''bilinear''
      then displace_bilinear source_image fx fy XNEW YNEW edge
      else if method = IntArg 2 \<or> method = StrArg ''barycentric''
      then displace_barycentric source_image fx fy XNEW YNEW edge
      else Inl ValueError)"

section \<open>Binary64 arithmetic\<close>



















section \<open>Well-formed images\<close>

text \<open>
  The data model's invariant: at least one row and one column, all rows as wide as the
  first, all pixels with as many channels as the first.
\<close>

definition width :: "image \<Rightarrow> nat" where
  "width img = length (hd img)"

definition channels :: "image \<Rightarrow> nat" where
  "channels img = length (hd (hd img))"

definition wf_image :: "image \<Rightarrow> bool" where
  "wf_image img =
     (img \<noteq> [] \<and> hd img \<noteq> [] \<and>
      (\<forall>r \<in> set img. length r = width img \<and> (\<forall>p \<in> set r. length p = channels img)))"

text \<open>The shape of an image: rows, columns, channels.\<close>

definition has_shape :: "image \<Rightarrow> nat \<Rightarrow> nat \<Rightarrow> nat \<Rightarrow> bool" where
  "has_shape img rows cols Z =
     (length img = rows \<and> (\<forall>r \<in> set img. length r = cols \<and> (\<forall>p \<in> set r. length p = Z)))"

text \<open>The three outcomes of the edge dispatch of \<open>src\<close>, and of the method dispatch.\<close>

definition is_repeat :: "arg \<Rightarrow> bool" where
  "is_repeat edge = (edge = IntArg 1 \<or> edge = StrArg ''repeat'')"

definition is_wrap :: "arg \<Rightarrow> bool" where
  "is_wrap edge = (edge = IntArg 2 \<or> edge = StrArg ''wrap'')"

definition is_bilinear :: "arg \<Rightarrow> bool" where
  "is_bilinear method = (method = IntArg 1 \<or> method = StrArg ''bilinear'')"

definition is_barycentric :: "arg \<Rightarrow> bool" where
  "is_barycentric method = (method = IntArg 2 \<or> method = StrArg ''barycentric'')"

definition is_nearest :: "arg \<Rightarrow> bool" where
  "is_nearest method = (method = IntArg 0 \<or> method = StrArg ''nearest'')"

text \<open>A coordinate outside \<open>[0, W - 1] \<times> [0, H - 1]\<close>.\<close>

definition outside :: "image \<Rightarrow> real \<Rightarrow> real \<Rightarrow> bool" where
  "outside img x y =
     (x < 0 \<or> y < 0 \<or> x > of_int (int (width img) - 1) \<or> y > of_int (int (length img) - 1))"


text \<open>
  A coordinate at least one whole cell away from the image: each of the four cells
  around it lies outside.
\<close>

definition far_outside :: "image \<Rightarrow> real \<Rightarrow> real \<Rightarrow> bool" where
  "far_outside img x y =
     (x \<le> - 1 \<or> y \<le> - 1 \<or> x \<ge> of_int (int (width img)) \<or> y \<ge> of_int (int (length img)))"

section \<open>Basic facts\<close>

lemma ebind_Inr: "ebind (Inr v) k = k v"
  by (simp add: ebind_def)

lemma ebind_Inl: "ebind (Inl e) k = Inl e"
  by (simp add: ebind_def)

lemma emap_Inr:
  assumes "\<And>x. x \<in> set xs \<Longrightarrow> f x = Inr (g x)"
  shows "emap f xs = Inr (map g xs)"
  using assms by (induction xs) (simp_all add: ebind_Inr)

lemma py_int_of_int: "py_int (of_int n) = n"
  by (simp add: py_int_def)

lemma cell_of_nonneg: "0 \<le> n \<Longrightarrow> cell (of_int n) = n"
  by (simp add: cell_def py_int_of_int)

lemma py_index_in_range: "0 \<le> i \<Longrightarrow> i < int (length xs) \<Longrightarrow> py_index xs i = Inr (xs ! nat i)"
  by (simp add: py_index_def)

lemma sizes_nonempty:
  assumes "img \<noteq> []" "hd img \<noteq> []"
  shows "sizes img = Inr (int (length img), int (length (hd img)), length (hd (hd img)))"
proof -
  obtain r rs where img: "img = r # rs" using assms(1) by (cases img) auto
  obtain p ps where r: "r = p # ps" using assms(2) img by (cases r) auto
  show ?thesis by (simp add: img r sizes_def py_index_def ebind_def)
qed

lemma sizes_empty:
  assumes "img = [] \<or> hd img = []"
  shows "sizes img = Inl IndexError"
proof (cases img)
  case Nil
  then show ?thesis by (simp add: sizes_def py_index_def ebind_def)
next
  case (Cons r rs)
  with assms have "r = []" by simp
  with Cons show ?thesis by (simp add: sizes_def py_index_def ebind_def)
qed

lemma wf_imageD:
  assumes "wf_image img"
  shows "img \<noteq> []" and "hd img \<noteq> []"
    and "\<And>r. r \<in> set img \<Longrightarrow> length r = width img"
    and "\<And>r p. r \<in> set img \<Longrightarrow> p \<in> set r \<Longrightarrow> length p = channels img"
  using assms unfolding wf_image_def by blast+

lemma sizes_wf:
  assumes "wf_image img"
  shows "sizes img = Inr (int (length img), int (width img), channels img)"
  unfolding width_def channels_def
  by (rule sizes_nonempty) (rule wf_imageD [OF assms])+

lemma wf_row:
  assumes "wf_image img" "j < length img"
  shows "length (img ! j) = width img"
  by (rule wf_imageD(3) [OF assms(1)]) (simp add: assms(2))

lemma wf_px:
  assumes "wf_image img" "j < length img" "i < width img"
  shows "length (img ! j ! i) = channels img"
proof -
  have r: "img ! j \<in> set img" using assms(2) by simp
  have "length (img ! j) = width img" by (rule wf_row [OF assms(1,2)])
  then have "img ! j ! i \<in> set (img ! j)" using assms(3) by simp
  then show ?thesis using wf_imageD(4) [OF assms(1) r] by blast
qed

lemma wf_pos:
  assumes "wf_image img"
  shows "0 < length img" and "0 < width img"
  using wf_imageD(1,2) [OF assms] by (simp_all add: width_def)

lemma py_int_bounds:
  assumes "0 \<le> x" "x \<le> of_int n"
  shows "0 \<le> py_int x \<and> py_int x \<le> n"
proof -
  have "py_int x = \<lfloor>x\<rfloor>" using assms(1) by (simp add: py_int_def)
  moreover have "0 \<le> \<lfloor>x\<rfloor>" using assms(1) by simp
  moreover have "\<lfloor>x\<rfloor> \<le> n" using assms(2) by (simp add: floor_le_iff) 
  ultimately show ?thesis by simp
qed

lemma read_wf:
  assumes "wf_image img" "0 \<le> j" "j < int (length img)" "0 \<le> i" "i < int (width img)"
  shows "ebind (py_index img j) (\<lambda>row. py_index row i) = Inr (img ! nat j ! nat i)"
proof -
  have "nat j < length img" using assms(2,3) by simp
  then have "length (img ! nat j) = width img" by (rule wf_row [OF assms(1)])
  then have "py_index (img ! nat j) i = Inr (img ! nat j ! nat i)"
    using assms(4,5) by (simp add: py_index_in_range)
  then show ?thesis using assms(2,3) by (simp add: py_index_in_range ebind_Inr)
qed

lemma src_repeat:
  assumes "wf_image img" "is_repeat edge"
  shows "src img x y edge =
     Inr (img ! nat (min (int (length img) - 1) (max 0 (py_int y)))
              ! nat (min (int (width img) - 1) (max 0 (py_int x))))"
proof -
  have pos: "0 < int (length img)" "0 < int (width img)" using wf_pos [OF assms(1)] by simp_all
  have "ebind (py_index img (min (int (length img) - 1) (max 0 (py_int y))))
          (\<lambda>row. py_index row (min (int (width img) - 1) (max 0 (py_int x)))) =
        Inr (img ! nat (min (int (length img) - 1) (max 0 (py_int y)))
                 ! nat (min (int (width img) - 1) (max 0 (py_int x))))"
    using pos by (intro read_wf [OF assms(1)]) linarith+
  then show ?thesis using assms(2)
    by (simp add: src_def sizes_wf [OF assms(1)] ebind_Inr is_repeat_def Let_def)
qed

lemma src_wrap:
  assumes "wf_image img" "\<not> is_repeat edge" "is_wrap edge"
  shows "src img x y edge =
     Inr (img ! nat (py_int y mod int (length img)) ! nat (py_int x mod int (width img)))"
proof -
  have pos: "0 < int (length img)" "0 < int (width img)" using wf_pos [OF assms(1)] by simp_all
  have "ebind (py_index img (py_int y mod int (length img)))
          (\<lambda>row. py_index row (py_int x mod int (width img))) =
        Inr (img ! nat (py_int y mod int (length img)) ! nat (py_int x mod int (width img)))"
    using pos by (intro read_wf [OF assms(1)]) simp_all
  then show ?thesis using assms(2,3)
    by (simp add: src_def sizes_wf [OF assms(1)] ebind_Inr is_repeat_def is_wrap_def Let_def)
qed

lemma src_zero_outside:
  assumes "wf_image img" "\<not> is_repeat edge" "\<not> is_wrap edge" "outside img x y"
  shows "src img x y edge = Inr (replicate (channels img) 0)"
  using assms(2,3,4)
  by (simp add: src_def sizes_wf [OF assms(1)] ebind_Inr is_repeat_def is_wrap_def outside_def)

lemma src_zero_inside:
  assumes "wf_image img" "\<not> is_repeat edge" "\<not> is_wrap edge" "\<not> outside img x y"
  shows "src img x y edge = Inr (img ! nat (py_int y) ! nat (py_int x))"
proof -
  have b: "0 \<le> x" "x \<le> of_int (int (width img) - 1)" "0 \<le> y" "y \<le> of_int (int (length img) - 1)"
    using assms(4) unfolding outside_def by linarith+
  have "0 \<le> py_int x \<and> py_int x \<le> int (width img) - 1"
       "0 \<le> py_int y \<and> py_int y \<le> int (length img) - 1"
    using py_int_bounds [OF b(1,2)] py_int_bounds [OF b(3,4)] by simp_all
  then have "ebind (py_index img (py_int y)) (\<lambda>row. py_index row (py_int x)) =
        Inr (img ! nat (py_int y) ! nat (py_int x))"
    by (intro read_wf [OF assms(1)]) linarith+
  then show ?thesis using assms(2,3,4)
    by (simp add: src_def sizes_wf [OF assms(1)] ebind_Inr is_repeat_def is_wrap_def outside_def)
qed

lemma src_at_int:
  assumes "wf_image img" "0 \<le> i" "i < int (width img)" "0 \<le> j" "j < int (length img)"
  shows "src img (of_int i) (of_int j) edge = Inr (img ! nat j ! nat i)"
proof (cases "is_repeat edge")
  case True
  have "min (int (length img) - 1) (max 0 j) = j" "min (int (width img) - 1) (max 0 i) = i"
    using assms(2-5) by linarith+
  then show ?thesis using src_repeat [OF assms(1) True, of "of_int i" "of_int j"]
    by (simp add: py_int_of_int)
next
  case nr: False
  show ?thesis
  proof (cases "is_wrap edge")
    case True
    have "j mod int (length img) = j" "i mod int (width img) = i"
      using assms(2-5) by simp_all
    then show ?thesis using src_wrap [OF assms(1) nr True, of "of_int i" "of_int j"]
      by (simp add: py_int_of_int)
  next
    case False
    have "\<not> outside img (of_int i) (of_int j)"
      using assms(2-5) by (simp add: outside_def)
    then show ?thesis using src_zero_inside [OF assms(1) nr False, of "of_int i" "of_int j"]
      by (simp add: py_int_of_int)
  qed
qed

lemma ebind_return: "ebind r Inr = r"
  by (cases r) (simp_all add: ebind_def)

lemma blin_direct:
  assumes "sizes img = Inr s" "x = of_int (cell x)" "y = of_int (cell y)"
  shows "blin img x y edge = src img (of_int (cell x)) (of_int (cell y)) edge"
proof -
  obtain Y X Z where s: "s = (Y, X, Z)" by (cases s) auto
  show ?thesis using assms(2,3) by (simp add: blin_def assms(1) s ebind_Inr Let_def)
qed

lemma baryc_direct:
  assumes "sizes img = Inr s" "x = of_int (cell x)" "y = of_int (cell y)"
  shows "baryc img x y edge = src img (of_int (cell x)) (of_int (cell y)) edge"
proof -
  obtain Y X Z where s: "s = (Y, X, Z)" by (cases s) auto
  have "baryc img x y edge =
          ebind (src img (of_int (cell x)) (of_int (cell y)) edge) (\<lambda>p1. Inr p1)"
    using assms(2,3) by (simp add: baryc_def assms(1) s ebind_Inr Let_def)
  then show ?thesis by (simp add: ebind_return)
qed

lemma py_range_mem: "x \<in> set (py_range n) \<longleftrightarrow> 0 \<le> x \<and> x < n"
proof
  assume "x \<in> set (py_range n)"
  then obtain k where "k < nat n" "x = int k" unfolding py_range_def by auto
  then show "0 \<le> x \<and> x < n" by linarith
next
  assume a: "0 \<le> x \<and> x < n"
  then have "nat x < nat n" "int (nat x) = x" by linarith+
  then have "x \<in> int ` {0..<nat n}" by (metis atLeastLessThan_iff image_eqI le0)
  then show "x \<in> set (py_range n)" by (simp add: py_range_def)
qed

lemma length_py_range: "length (py_range n) = nat n"
  by (simp add: py_range_def)

lemma emap_table:
  assumes "\<And>x y. y \<in> set ys \<Longrightarrow> x \<in> set xs \<Longrightarrow> f x y = Inr (g x y)"
  shows "emap (\<lambda>y. emap (\<lambda>x. f x y) xs) ys = Inr (map (\<lambda>y. map (\<lambda>x. g x y) xs) ys)"
proof (rule emap_Inr)
  fix y assume "y \<in> set ys"
  then show "emap (\<lambda>x. f x y) xs = Inr (map (\<lambda>x. g x y) xs)"
    by (intro emap_Inr assms)
qed

lemma image_as_table:
  assumes "wf_image img"
  shows "map (\<lambda>y. map (\<lambda>x. img ! nat y ! nat x) (py_range (int (width img))))
             (py_range (int (length img))) = img"
proof (rule nth_equalityI)
  show "length (map (\<lambda>y. map (\<lambda>x. img ! nat y ! nat x) (py_range (int (width img))))
             (py_range (int (length img)))) = length img"
    by (simp add: length_py_range)
next
  fix j
  assume "j < length (map (\<lambda>y. map (\<lambda>x. img ! nat y ! nat x) (py_range (int (width img))))
             (py_range (int (length img))))"
  then have j: "j < length img" by (simp add: length_py_range)
  have len: "length (img ! j) = width img" by (rule wf_row [OF assms j])
  have "map (\<lambda>x. img ! j ! nat x) (py_range (int (width img))) = img ! j"
    by (rule nth_equalityI) (simp_all add: len py_range_def)
  then show "map (\<lambda>y. map (\<lambda>x. img ! nat y ! nat x) (py_range (int (width img))))
             (py_range (int (length img))) ! j = img ! j"
    using j by (simp add: py_range_def)
qed

lemma baryc_at_int:
  assumes "wf_image img" "0 \<le> i" "i < int (width img)" "0 \<le> j" "j < int (length img)"
  shows "baryc img (of_int i) (of_int j) edge = Inr (img ! nat j ! nat i)"
  using baryc_direct [OF sizes_wf [OF assms(1)], of "of_int i" "of_int j" edge]
    src_at_int [OF assms, of edge] assms(2,4)
  by (simp add: cell_of_nonneg)

lemma rescale_barycentric_same_size:
  assumes "wf_image img" "2 \<le> width img" "2 \<le> length img"
  shows "rescale_barycentric img (int (width img)) (int (length img)) edge = Inr img"
proof -
  have ne: "int (width img) - 1 \<noteq> 0" "int (length img) - 1 \<noteq> 0" using assms(2,3) by simp_all
  have one: "real_of_int (int (width img) - 1) / real_of_int (int (width img) - 1) = 1"
            "real_of_int (int (length img) - 1) / real_of_int (int (length img) - 1) = 1"
    using assms(2,3) by simp_all
  have "rescale_barycentric img (int (width img)) (int (length img)) edge =
          emap (\<lambda>y. emap (\<lambda>x. baryc img (of_int x) (of_int y) edge) (py_range (int (width img))))
               (py_range (int (length img)))"
    using ne unfolding rescale_barycentric_def sizes_wf [OF assms(1)] ebind_Inr
    by (simp only: one split_conv if_False Let_def mult_1)
  also have "\<dots> = Inr (map (\<lambda>y. map (\<lambda>x. img ! nat y ! nat x) (py_range (int (width img))))
             (py_range (int (length img))))"
    by (rule emap_table) (simp add: py_range_mem baryc_at_int [OF assms(1)])
  finally show ?thesis by (simp add: image_as_table [OF assms(1)])
qed

lemma rescale_bilinear_same_size:
  assumes "wf_image img" "2 \<le> width img" "2 \<le> length img"
  shows "rescale_bilinear img (int (width img)) (int (length img)) edge = Inr img"
proof -
  have ne: "int (width img) - 1 \<noteq> 0" "int (length img) - 1 \<noteq> 0" using assms(2,3) by simp_all
  show ?thesis using ne unfolding rescale_bilinear_def sizes_wf [OF assms(1)] ebind_Inr
    by (simp add: ebind_Inr)
qed

lemma src_default:
  assumes "\<not> is_repeat edge" "\<not> is_wrap edge"
  shows "src img x y edge = src img x y (IntArg 0)"
  using assms by (simp add: src_def is_repeat_def is_wrap_def)

lemma blin_default:
  assumes "\<not> is_repeat edge" "\<not> is_wrap edge"
  shows "blin img x y edge = blin img x y (IntArg 0)"
  by (simp only: blin_def src_default [OF assms])

lemma baryc_default:
  assumes "\<not> is_repeat edge" "\<not> is_wrap edge"
  shows "baryc img x y edge = baryc img x y (IntArg 0)"
  by (simp only: baryc_def src_default [OF assms])

lemma xlin_default:
  assumes "\<not> is_repeat edge" "\<not> is_wrap edge"
  shows "xlin img Z x y edge = xlin img Z x y (IntArg 0)"
  by (simp only: xlin_def src_default [OF assms])

lemma ylin_default:
  assumes "\<not> is_repeat edge" "\<not> is_wrap edge"
  shows "ylin img Z x y edge = ylin img Z x y (IntArg 0)"
  by (simp only: ylin_def src_default [OF assms])

lemma src_zero_mode:
  assumes "wf_image img" "\<not> is_repeat edge" "\<not> is_wrap edge"
  shows "src img x y edge =
           Inr (if outside img x y then replicate (channels img) 0
                else img ! nat (py_int y) ! nat (py_int x))"
  using src_zero_outside [OF assms, of x y] src_zero_inside [OF assms, of x y] by simp

lemma weights_sum: "w00 x y + w01 x y + w10 x y + w11 x y = 1"
  by (simp add: w00_def w01_def w10_def w11_def algebra_simps)

lemma scaled_nth:
  "length p = Z \<Longrightarrow> scaled p w Z = map (\<lambda>c. of_int c * w) p"
  unfolding scaled_def by (rule nth_equalityI) simp_all

lemma intaddup4_same:
  assumes "a + b + c + d = 1"
  shows "intaddup4 (map (\<lambda>v. of_int v * a) p) (map (\<lambda>v. of_int v * b) p)
                   (map (\<lambda>v. of_int v * c) p) (map (\<lambda>v. of_int v * d) p) = p"
proof (rule nth_equalityI)
  show "length (intaddup4 (map (\<lambda>v. of_int v * a) p) (map (\<lambda>v. of_int v * b) p)
                   (map (\<lambda>v. of_int v * c) p) (map (\<lambda>v. of_int v * d) p)) = length p"
    by (simp add: intaddup4_def)
next
  fix i
  assume "i < length (intaddup4 (map (\<lambda>v. of_int v * a) p) (map (\<lambda>v. of_int v * b) p)
                   (map (\<lambda>v. of_int v * c) p) (map (\<lambda>v. of_int v * d) p))"
  then have i: "i < length p" by (simp add: intaddup4_def)
  have "real_of_int (p ! i) * a + real_of_int (p ! i) * b + real_of_int (p ! i) * c
          + real_of_int (p ! i) * d = real_of_int (p ! i) * (a + b + c + d)"
    by (simp add: algebra_simps)
  also have "\<dots> = real_of_int (p ! i)" using assms by simp
  finally show "intaddup4 (map (\<lambda>v. of_int v * a) p) (map (\<lambda>v. of_int v * b) p)
                   (map (\<lambda>v. of_int v * c) p) (map (\<lambda>v. of_int v * d) p) ! i = p ! i"
    using i by (simp add: intaddup4_def py_int_of_int)
qed

lemma blin_miss:
  assumes "sizes img = Inr (Y, X, Z)"
    and "\<not> (x = of_int (cell x) \<and> y = of_int (cell y))"
  shows "blin img x y edge =
     ebind (src img (of_int (cell x)) (of_int (cell y)) edge) (\<lambda>p00.
     ebind (src img (of_int (cell x)) (of_int (cell y + 1)) edge) (\<lambda>p01.
     ebind (src img (of_int (cell x + 1)) (of_int (cell y)) edge) (\<lambda>p10.
     ebind (src img (of_int (cell x + 1)) (of_int (cell y + 1)) edge) (\<lambda>p11.
       Inr (intaddup4 (scaled p00 (w00 x y) Z) (scaled p01 (w01 x y) Z)
                      (scaled p10 (w10 x y) Z) (scaled p11 (w11 x y) Z))))))"
  unfolding blin_def assms(1) ebind_Inr Let_def split_conv
  by (simp only: assms(2) if_False)

lemma blin_equal_corners:
  assumes "sizes img = Inr (Y, X, Z)" "length p = Z"
    and "\<not> (x = of_int (cell x) \<and> y = of_int (cell y))"
    and "src img (of_int (cell x)) (of_int (cell y)) edge = Inr p"
    and "src img (of_int (cell x)) (of_int (cell y + 1)) edge = Inr p"
    and "src img (of_int (cell x + 1)) (of_int (cell y)) edge = Inr p"
    and "src img (of_int (cell x + 1)) (of_int (cell y + 1)) edge = Inr p"
  shows "blin img x y edge = Inr p"
proof -
  have "blin img x y edge =
     Inr (intaddup4 (scaled p (w00 x y) Z) (scaled p (w01 x y) Z)
                    (scaled p (w10 x y) Z) (scaled p (w11 x y) Z))"
    by (simp only: blin_miss [OF assms(1,3)] assms(4-7) ebind_Inr)
  then show ?thesis
    by (simp only: scaled_nth [OF assms(2)] intaddup4_same [OF weights_sum])
qed

lemma src_length:
  assumes "wf_image img" "src img x y edge = Inr p"
  shows "length p = channels img"
proof -
  have pos: "0 < int (length img)" "0 < int (width img)" using wf_pos [OF assms(1)] by simp_all
  have px: "\<And>j i. 0 \<le> j \<Longrightarrow> j < int (length img) \<Longrightarrow> 0 \<le> i \<Longrightarrow> i < int (width img) \<Longrightarrow>
              length (img ! nat j ! nat i) = channels img"
    by (rule wf_px [OF assms(1)]) simp_all
  show ?thesis
  proof (cases "is_repeat edge")
    case True
    have "length (img ! nat (min (int (length img) - 1) (max 0 (py_int y)))
                      ! nat (min (int (width img) - 1) (max 0 (py_int x)))) = channels img"
      using pos by (intro px) linarith+
    then show ?thesis using src_repeat [OF assms(1) True, of x y] assms(2) by simp
  next
    case nr: False
    show ?thesis
    proof (cases "is_wrap edge")
      case True
      have "length (img ! nat (py_int y mod int (length img))
                        ! nat (py_int x mod int (width img))) = channels img"
        using pos by (intro px) simp_all
      then show ?thesis using src_wrap [OF assms(1) nr True, of x y] assms(2) by simp
    next
      case nw: False
      show ?thesis
      proof (cases "outside img x y")
        case True
        then show ?thesis using src_zero_outside [OF assms(1) nr nw True] assms(2) by auto
      next
        case False
        then have b: "0 \<le> x" "x \<le> of_int (int (width img) - 1)"
                     "0 \<le> y" "y \<le> of_int (int (length img) - 1)"
          unfolding outside_def by linarith+
        have "0 \<le> py_int x \<and> py_int x \<le> int (width img) - 1"
             "0 \<le> py_int y \<and> py_int y \<le> int (length img) - 1"
          using py_int_bounds [OF b(1,2)] py_int_bounds [OF b(3,4)] by simp_all
        then have "length (img ! nat (py_int y) ! nat (py_int x)) = channels img"
          by (intro px) linarith+
        then show ?thesis using src_zero_inside [OF assms(1) nr nw False] assms(2) by simp
      qed
    qed
  qed
qed

lemma src_total:
  assumes "wf_image img"
  shows "\<exists>p. src img x y edge = Inr p \<and> length p = channels img"
proof -
  have "\<exists>p. src img x y edge = Inr p"
  proof (cases "is_repeat edge")
    case True
    then show ?thesis using src_repeat [OF assms True, of x y] by blast
  next
    case nr: False
    show ?thesis
    proof (cases "is_wrap edge")
      case True
      then show ?thesis using src_wrap [OF assms nr True, of x y] by blast
    next
      case False
      then show ?thesis using src_zero_mode [OF assms nr False, of x y] by blast
    qed
  qed
  then show ?thesis using src_length [OF assms] by blast
qed

lemma baryc_miss:
  assumes "sizes img = Inr (Y, X, Z)"
    and "\<not> (x = of_int (cell x) \<and> y = of_int (cell y))"
    and "src img (of_int (cell x)) (of_int (cell y)) edge = Inr p1"
    and "src img (of_int (cell x + 1)) (of_int (cell y)) edge = Inr p2"
    and "src img (of_int (cell x + 1)) (of_int (cell y + 1)) edge = Inr p3"
    and "src img (of_int (cell x)) (of_int (cell y + 1)) edge = Inr p4"
  shows "baryc img x y edge =
     (if diagonal13 (Z_COLOR Z) p1 p2 p3 p4 then
        (if x - of_int (cell x) < y - of_int (cell y)
         then Inr (triangle134 Z x y (cell x) (cell y) p1 p3 p4)
         else Inr (triangle123 Z x y (cell x) (cell y) p1 p2 p3))
      else
        (if x - of_int (cell x) < of_int (cell y + 1) - y
         then Inr (triangle124 Z x y (cell x) (cell y) p1 p2 p4)
         else Inr (triangle234 Z x y (cell x) (cell y) p2 p3 p4)))"
  unfolding baryc_def assms(1) ebind_Inr Let_def split_conv assms(3)
  by (simp only: assms(2) if_False assms(4-6) ebind_Inr)

lemma intaddup3_same:
  assumes "a + b + c = 1"
  shows "intaddup3 (map (\<lambda>v. of_int v * a) p) (map (\<lambda>v. of_int v * b) p)
                   (map (\<lambda>v. of_int v * c) p) = p"
proof (rule nth_equalityI)
  show "length (intaddup3 (map (\<lambda>v. of_int v * a) p) (map (\<lambda>v. of_int v * b) p)
                   (map (\<lambda>v. of_int v * c) p)) = length p"
    by (simp add: intaddup3_def)
next
  fix i
  assume "i < length (intaddup3 (map (\<lambda>v. of_int v * a) p) (map (\<lambda>v. of_int v * b) p)
                   (map (\<lambda>v. of_int v * c) p))"
  then have i: "i < length p" by (simp add: intaddup3_def)
  have "real_of_int (p ! i) * a + real_of_int (p ! i) * b + real_of_int (p ! i) * c
          = real_of_int (p ! i) * (a + b + c)"
    by (simp add: algebra_simps)
  also have "\<dots> = real_of_int (p ! i)" using assms by simp
  finally show "intaddup3 (map (\<lambda>v. of_int v * a) p) (map (\<lambda>v. of_int v * b) p)
                   (map (\<lambda>v. of_int v * c) p) ! i = p ! i"
    using i by (simp add: intaddup3_def py_int_of_int)
qed

lemma triangles_same:
  assumes "length p = Z"
  shows "triangle134 Z x y x1 y1 p p p = p" and "triangle123 Z x y x1 y1 p p p = p"
    and "triangle124 Z x y x1 y1 p p p = p" and "triangle234 Z x y x1 y1 p p p = p"
proof -
  have s: "\<And>a b :: real. b + a + (1 - (a + b)) = 1" "\<And>a b :: real. a + b + (1 - (a + b)) = 1"
    "\<And>a b :: real. (1 - (a + b)) + a + b = 1" "\<And>a b :: real. b + (1 - (a + b)) + a = 1"
    by simp_all
  show "triangle134 Z x y x1 y1 p p p = p"
    unfolding triangle134_def Let_def scaled_nth [OF assms] by (rule intaddup3_same) (rule s(1))
  show "triangle123 Z x y x1 y1 p p p = p"
    unfolding triangle123_def Let_def scaled_nth [OF assms] by (rule intaddup3_same) (rule s(2))
  show "triangle124 Z x y x1 y1 p p p = p"
    unfolding triangle124_def Let_def scaled_nth [OF assms] by (rule intaddup3_same) (rule s(3))
  show "triangle234 Z x y x1 y1 p p p = p"
    unfolding triangle234_def Let_def scaled_nth [OF assms] by (rule intaddup3_same) (rule s(4))
qed

lemma baryc_equal_corners:
  assumes "sizes img = Inr (Y, X, Z)" "length p = Z"
    and "\<not> (x = of_int (cell x) \<and> y = of_int (cell y))"
    and "src img (of_int (cell x)) (of_int (cell y)) edge = Inr p"
    and "src img (of_int (cell x)) (of_int (cell y + 1)) edge = Inr p"
    and "src img (of_int (cell x + 1)) (of_int (cell y)) edge = Inr p"
    and "src img (of_int (cell x + 1)) (of_int (cell y + 1)) edge = Inr p"
  shows "baryc img x y edge = Inr p"
  unfolding baryc_miss [OF assms(1,3,4,6,7,5)] triangles_same [OF assms(2)]
  by simp

lemma cell_low:
  assumes "x \<le> - 1"
  shows "cell x + 1 < 0"
proof -
  have "\<lceil>x\<rceil> \<le> - 1" using assms by (simp add: ceiling_le_iff)
  then show ?thesis using assms by (simp add: cell_def py_int_def)
qed

lemma cell_high:
  assumes "of_int n \<le> x" "0 \<le> n"
  shows "n \<le> cell x"
proof -
  have "0 \<le> x" using assms by (meson of_int_0_le_iff order_trans)
  moreover have "n \<le> \<lfloor>x\<rfloor>" using assms(1) by (simp add: le_floor_iff)
  ultimately show ?thesis by (simp add: cell_def py_int_def)
qed

lemma corners_outside:
  assumes "far_outside img x y"
    and "a = cell x \<or> a = cell x + 1" and "b = cell y \<or> b = cell y + 1"
  shows "outside img (of_int a) (of_int b)"
proof -
  have "a < 0 \<or> b < 0 \<or> a > int (width img) - 1 \<or> b > int (length img) - 1"
    using assms cell_low [of x] cell_low [of y]
      cell_high [of "int (width img)" x] cell_high [of "int (length img)" y]
    unfolding far_outside_def by fastforce
  then show ?thesis unfolding outside_def by (simp only: of_int_less_iff of_int_0_less_iff of_int_less_0_iff)
qed

lemma blin_far_outside:
  assumes "wf_image img" "\<not> is_repeat edge" "\<not> is_wrap edge" "far_outside img x y"
  shows "blin img x y edge = Inr (replicate (channels img) 0)"
proof -
  have z: "\<And>a b. a = cell x \<or> a = cell x + 1 \<Longrightarrow> b = cell y \<or> b = cell y + 1 \<Longrightarrow>
             src img (of_int a) (of_int b) edge = Inr (replicate (channels img) 0)"
    by (rule src_zero_outside [OF assms(1-3)]) (rule corners_outside [OF assms(4)])
  show ?thesis
  proof (cases "x = of_int (cell x) \<and> y = of_int (cell y)")
    case True
    then have "blin img x y edge = src img (of_int (cell x)) (of_int (cell y)) edge"
      using blin_direct [OF sizes_wf [OF assms(1)], of x y edge] by blast
    then show ?thesis using z [of "cell x" "cell y"] by simp
  next
    case False
    show ?thesis
      by (rule blin_equal_corners [OF sizes_wf [OF assms(1)] _ False]) (simp, (rule z; simp)+)
  qed
qed

lemma baryc_far_outside:
  assumes "wf_image img" "\<not> is_repeat edge" "\<not> is_wrap edge" "far_outside img x y"
  shows "baryc img x y edge = Inr (replicate (channels img) 0)"
proof -
  have z: "\<And>a b. a = cell x \<or> a = cell x + 1 \<Longrightarrow> b = cell y \<or> b = cell y + 1 \<Longrightarrow>
             src img (of_int a) (of_int b) edge = Inr (replicate (channels img) 0)"
    by (rule src_zero_outside [OF assms(1-3)]) (rule corners_outside [OF assms(4)])
  show ?thesis
  proof (cases "x = of_int (cell x) \<and> y = of_int (cell y)")
    case True
    then have "baryc img x y edge = src img (of_int (cell x)) (of_int (cell y)) edge"
      using baryc_direct [OF sizes_wf [OF assms(1)], of x y edge] by blast
    then show ?thesis using z [of "cell x" "cell y"] by simp
  next
    case False
    show ?thesis
      by (rule baryc_equal_corners [OF sizes_wf [OF assms(1)] _ False]) (simp, (rule z; simp)+)
  qed
qed

lemma length_scaled: "length (scaled p w Z) = min (length p) Z"
  by (simp add: scaled_def)

lemma length_intaddup2: "length (intaddup2 as bs) = min (length as) (length bs)"
  by (simp add: intaddup2_def)

lemma length_intaddup3:
  "length (intaddup3 as bs cs) = min (length as) (min (length bs) (length cs))"
  by (simp add: intaddup3_def)

lemma length_intaddup4:
  "length (intaddup4 as bs cs ds) =
     min (min (length as) (length bs)) (min (length cs) (length ds))"
  by (simp add: intaddup4_def)

lemma length_triangles:
  assumes "length p = Z" "length q = Z" "length r = Z"
  shows "length (triangle134 Z x y x1 y1 p q r) = Z" and "length (triangle123 Z x y x1 y1 p q r) = Z"
    and "length (triangle124 Z x y x1 y1 p q r) = Z" and "length (triangle234 Z x y x1 y1 p q r) = Z"
  using assms
  by (simp_all add: triangle134_def triangle123_def triangle124_def triangle234_def Let_def
        length_intaddup3 length_scaled)

lemma blin_total:
  assumes "wf_image img"
  shows "\<exists>p. blin img x y edge = Inr p \<and> length p = channels img"
proof (cases "x = of_int (cell x) \<and> y = of_int (cell y)")
  case True
  then have "blin img x y edge = src img (of_int (cell x)) (of_int (cell y)) edge"
    using blin_direct [OF sizes_wf [OF assms], of x y edge] by blast
  then show ?thesis using src_total [OF assms, of "of_int (cell x)" "of_int (cell y)" edge] by simp
next
  case False
  obtain p00 where 0: "src img (of_int (cell x)) (of_int (cell y)) edge = Inr p00"
      "length p00 = channels img" using src_total [OF assms] by blast
  obtain p01 where 1: "src img (of_int (cell x)) (of_int (cell y + 1)) edge = Inr p01"
      "length p01 = channels img" using src_total [OF assms] by blast
  obtain p10 where 2: "src img (of_int (cell x + 1)) (of_int (cell y)) edge = Inr p10"
      "length p10 = channels img" using src_total [OF assms] by blast
  obtain p11 where 3: "src img (of_int (cell x + 1)) (of_int (cell y + 1)) edge = Inr p11"
      "length p11 = channels img" using src_total [OF assms] by blast
  have "blin img x y edge =
      Inr (intaddup4 (scaled p00 (w00 x y) (channels img)) (scaled p01 (w01 x y) (channels img))
                     (scaled p10 (w10 x y) (channels img)) (scaled p11 (w11 x y) (channels img)))"
    by (simp only: blin_miss [OF sizes_wf [OF assms] False] 0(1) 1(1) 2(1) 3(1) ebind_Inr)
  then show ?thesis
    by (simp add: length_intaddup4 length_scaled 0(2) 1(2) 2(2) 3(2))
qed

lemma baryc_total:
  assumes "wf_image img"
  shows "\<exists>p. baryc img x y edge = Inr p \<and> length p = channels img"
proof (cases "x = of_int (cell x) \<and> y = of_int (cell y)")
  case True
  then have "baryc img x y edge = src img (of_int (cell x)) (of_int (cell y)) edge"
    using baryc_direct [OF sizes_wf [OF assms], of x y edge] by blast
  then show ?thesis using src_total [OF assms, of "of_int (cell x)" "of_int (cell y)" edge] by simp
next
  case False
  obtain p1 where 1: "src img (of_int (cell x)) (of_int (cell y)) edge = Inr p1"
      "length p1 = channels img" using src_total [OF assms] by blast
  obtain p2 where 2: "src img (of_int (cell x + 1)) (of_int (cell y)) edge = Inr p2"
      "length p2 = channels img" using src_total [OF assms] by blast
  obtain p3 where 3: "src img (of_int (cell x + 1)) (of_int (cell y + 1)) edge = Inr p3"
      "length p3 = channels img" using src_total [OF assms] by blast
  obtain p4 where 4: "src img (of_int (cell x)) (of_int (cell y + 1)) edge = Inr p4"
      "length p4 = channels img" using src_total [OF assms] by blast
  show ?thesis
    unfolding baryc_miss [OF sizes_wf [OF assms] False 1(1) 2(1) 3(1) 4(1)]
    by (simp add: length_triangles 1(2) 2(2) 3(2) 4(2))
qed

lemma lin_total:
  assumes "wf_image img" "Z = channels img"
  shows "\<exists>p. xlin img Z x j edge = Inr p \<and> length p = Z"
    and "\<exists>p. ylin img Z i y edge = Inr p \<and> length p = Z"
proof -
  show "\<exists>p. xlin img Z x j edge = Inr p \<and> length p = Z"
  proof (cases "x = of_int (cell x)")
    case True
    then have "xlin img Z x j edge = src img (of_int (cell x)) (of_int j) edge"
      by (simp add: xlin_def Let_def)
    then show ?thesis using src_total [OF assms(1), of "of_int (cell x)" "of_int j" edge] assms(2)
      by simp
  next
    case False
    obtain p0 where 0: "src img (of_int (cell x)) (of_int j) edge = Inr p0"
      "length p0 = channels img" using src_total [OF assms(1)] by blast
    obtain p1 where 1: "src img (of_int (py_int x + 1)) (of_int j) edge = Inr p1"
      "length p1 = channels img" using src_total [OF assms(1)] by blast
    have "xlin img Z x j edge =
        Inr (intaddup2 (scaled p0 (of_int (py_int x + 1) - x) Z) (scaled p1 (x - of_int (cell x)) Z))"
      unfolding xlin_def Let_def by (simp only: False if_False 0(1) 1(1) ebind_Inr)
    then show ?thesis by (simp add: length_intaddup2 length_scaled 0(2) 1(2) assms(2))
  qed
  show "\<exists>p. ylin img Z i y edge = Inr p \<and> length p = Z"
  proof (cases "y = of_int (cell y)")
    case True
    then have "ylin img Z i y edge = src img (of_int i) (of_int (cell y)) edge"
      by (simp add: ylin_def Let_def)
    then show ?thesis using src_total [OF assms(1), of "of_int i" "of_int (cell y)" edge] assms(2)
      by simp
  next
    case False
    obtain p0 where 0: "src img (of_int i) (of_int (cell y)) edge = Inr p0"
      "length p0 = channels img" using src_total [OF assms(1)] by blast
    obtain p1 where 1: "src img (of_int i) (of_int (py_int y + 1)) edge = Inr p1"
      "length p1 = channels img" using src_total [OF assms(1)] by blast
    have "ylin img Z i y edge =
        Inr (intaddup2 (scaled p0 (of_int (py_int y + 1) - y) Z) (scaled p1 (y - of_int (cell y)) Z))"
      unfolding ylin_def Let_def by (simp only: False if_False 0(1) 1(1) ebind_Inr)
    then show ?thesis by (simp add: length_intaddup2 length_scaled 0(2) 1(2) assms(2))
  qed
qed

lemma emap_all:
  assumes "\<And>x. x \<in> set xs \<Longrightarrow> \<exists>v. f x = Inr v \<and> P v"
  shows "\<exists>vs. emap f xs = Inr vs \<and> length vs = length xs \<and> (\<forall>v \<in> set vs. P v)"
  using assms
proof (induction xs)
  case Nil
  then show ?case by simp
next
  case (Cons a xs)
  obtain v where v: "f a = Inr v" "P v" using Cons.prems [of a] by auto
  obtain vs where vs: "emap f xs = Inr vs" "length vs = length xs" "\<forall>v \<in> set vs. P v"
    using Cons.IH Cons.prems by (meson list.set_intros(2))
  show ?case using v vs by (simp add: ebind_Inr)
qed

lemma emap_table_shape:
  assumes "\<And>x y. y \<in> set ys \<Longrightarrow> x \<in> set xs \<Longrightarrow> \<exists>p. f x y = Inr p \<and> length p = Z"
  shows "\<exists>out. emap (\<lambda>y. emap (\<lambda>x. f x y) xs) ys = Inr out
               \<and> has_shape out (length ys) (length xs) Z"
proof -
  have "\<And>y. y \<in> set ys \<Longrightarrow>
          \<exists>r. emap (\<lambda>x. f x y) xs = Inr r \<and> (length r = length xs \<and> (\<forall>p \<in> set r. length p = Z))"
    using emap_all [where f = "\<lambda>x. f x _" and P = "\<lambda>p. length p = Z" and xs = xs] assms
    by blast
  then show ?thesis
    unfolding has_shape_def
    by (rule emap_all [where P = "\<lambda>r. length r = length xs \<and> (\<forall>p \<in> set r. length p = Z)"])
qed

lemma wf_has_shape:
  assumes "wf_image img"
  shows "has_shape img (length img) (width img) (channels img)"
  unfolding has_shape_def using wf_imageD(3,4) [OF assms] by blast

lemma shape_wf:
  assumes "has_shape out rows cols Z" "0 < rows" "0 < cols"
  shows "wf_image out" and "channels out = Z" and "width out = cols"
proof -
  have rows: "length out = rows"
    and row: "\<And>r. r \<in> set out \<Longrightarrow> length r = cols"
    and px: "\<And>r p. r \<in> set out \<Longrightarrow> p \<in> set r \<Longrightarrow> length p = Z"
    using assms(1) unfolding has_shape_def by blast+
  have ne: "out \<noteq> []" using rows assms(2) by auto
  then have h: "hd out \<in> set out" by simp
  have w: "length (hd out) = cols" by (rule row [OF h])
  then have ne2: "hd out \<noteq> []" using assms(3) by auto
  then have "hd (hd out) \<in> set (hd out)" by simp
  then have c: "length (hd (hd out)) = Z" by (rule px [OF h])
  show "width out = cols" unfolding width_def by (rule w)
  show "channels out = Z" unfolding channels_def by (rule c)
  show "wf_image out"
    unfolding wf_image_def width_def channels_def w c using ne ne2 row px by blast
qed

lemma displace_shape:
  assumes "wf_image img" "is_bilinear method \<or> is_barycentric method"
  shows "\<exists>out. displace img fx fy XNEW YNEW edge method = Inr out
               \<and> has_shape out (nat YNEW) (nat XNEW) (channels img)"
proof -
  have b: "\<exists>out. displace_bilinear img fx fy XNEW YNEW edge = Inr out
               \<and> has_shape out (nat YNEW) (nat XNEW) (channels img)"
    unfolding displace_bilinear_def sizes_wf [OF assms(1)] ebind_Inr split_conv
    using emap_table_shape [where f = "\<lambda>x y. blin img (fx x y) (fy x y) edge"
        and xs = "py_range XNEW" and ys = "py_range YNEW" and Z = "channels img"]
      blin_total [OF assms(1)]
    by (simp add: length_py_range)
  have c: "\<exists>out. displace_barycentric img fx fy XNEW YNEW edge = Inr out
               \<and> has_shape out (nat YNEW) (nat XNEW) (channels img)"
    unfolding displace_barycentric_def sizes_wf [OF assms(1)] ebind_Inr split_conv
    using emap_table_shape [where f = "\<lambda>x y. baryc img (fx x y) (fy x y) edge"
        and xs = "py_range XNEW" and ys = "py_range YNEW" and Z = "channels img"]
      baryc_total [OF assms(1)]
    by (simp add: length_py_range)
  show ?thesis using assms(2) b c
    by (auto simp add: displace_def is_bilinear_def is_barycentric_def)
qed

lemma rescale_barycentric_shape:
  assumes "wf_image img" "XNEW \<noteq> 1" "YNEW \<noteq> 1"
  shows "\<exists>out. rescale_barycentric img XNEW YNEW edge = Inr out
               \<and> has_shape out (nat YNEW) (nat XNEW) (channels img)"
proof -
  have ne: "XNEW - 1 \<noteq> 0" "YNEW - 1 \<noteq> 0" using assms(2,3) by simp_all
  define xr where "xr = real_of_int (int (width img) - 1) / real_of_int (XNEW - 1)"
  define yr where "yr = real_of_int (int (length img) - 1) / real_of_int (YNEW - 1)"
  have eq: "rescale_barycentric img XNEW YNEW edge =
      emap (\<lambda>y. emap (\<lambda>x. baryc img (xr * of_int x) (yr * of_int y) edge) (py_range XNEW))
           (py_range YNEW)"
    unfolding rescale_barycentric_def sizes_wf [OF assms(1)] ebind_Inr split_conv Let_def
      xr_def yr_def
    using ne by (simp only: if_False)
  show ?thesis unfolding eq
    using emap_table_shape [where f = "\<lambda>x y. baryc img (xr * of_int x) (yr * of_int y) edge"
        and xs = "py_range XNEW" and ys = "py_range YNEW" and Z = "channels img"]
      baryc_total [OF assms(1)]
    by (simp add: length_py_range)
qed

lemma rescale_bilinear_shape:
  assumes "wf_image img" "XNEW \<noteq> 1" "YNEW \<noteq> 1"
  shows "\<exists>out. rescale_bilinear img XNEW YNEW edge = Inr out
               \<and> has_shape out (nat YNEW) (nat XNEW) (channels img)"
proof -
  have ne: "XNEW - 1 \<noteq> 0" "YNEW - 1 \<noteq> 0" using assms(2,3) by simp_all
  define xr where "xr = real_of_int (int (width img) - 1) / real_of_int (XNEW - 1)"
  define yr where "yr = real_of_int (int (length img) - 1) / real_of_int (YNEW - 1)"
  define pass1 where "pass1 =
      (if XNEW = int (width img) then Inr img
       else emap (\<lambda>y. emap (\<lambda>x. xlin img (channels img) (xr * of_int x) y edge) (py_range XNEW))
                 (py_range (int (length img))))"
  define pass2 where "pass2 = (\<lambda>intermediate_image.
      if YNEW = int (length img) then Inr intermediate_image
      else emap (\<lambda>y. emap (\<lambda>x. ylin intermediate_image (channels img) x (yr * of_int y) edge)
                          (py_range XNEW))
                (py_range YNEW))"
  have eq: "rescale_bilinear img XNEW YNEW edge = ebind pass1 pass2"
    unfolding rescale_bilinear_def sizes_wf [OF assms(1)] ebind_Inr split_conv Let_def
      xr_def yr_def pass1_def pass2_def
    using ne by (simp only: if_False)
  have "\<exists>inter. pass1 = Inr inter \<and> has_shape inter (length img) (nat XNEW) (channels img)"
  proof (cases "XNEW = int (width img)")
    case True
    then show ?thesis unfolding pass1_def using wf_has_shape [OF assms(1)] by simp
  next
    case False
    then show ?thesis unfolding pass1_def
      using emap_table_shape [where f = "\<lambda>x y. xlin img (channels img) (xr * of_int x) y edge"
          and xs = "py_range XNEW" and ys = "py_range (int (length img))" and Z = "channels img"]
        lin_total(1) [OF assms(1) refl]
      by (simp add: length_py_range)
  qed
  then obtain inter where i: "pass1 = Inr inter"
      "has_shape inter (length img) (nat XNEW) (channels img)" by blast
  have "\<exists>out. pass2 inter = Inr out \<and> has_shape out (nat YNEW) (nat XNEW) (channels img)"
  proof (cases "YNEW = int (length img)")
    case True
    then show ?thesis unfolding pass2_def using i(2) by simp
  next
    case False
    have "\<And>x y. y \<in> set (py_range YNEW) \<Longrightarrow> x \<in> set (py_range XNEW) \<Longrightarrow>
            \<exists>p. ylin inter (channels img) x (yr * of_int y) edge = Inr p \<and> length p = channels img"
    proof -
      fix x y assume "x \<in> set (py_range XNEW)"
      then have "0 < nat XNEW" by (simp add: py_range_mem)
      then have w: "wf_image inter" "channels inter = channels img"
        using shape_wf [OF i(2)] wf_pos(1) [OF assms(1)] by simp_all
      show "\<exists>p. ylin inter (channels img) x (yr * of_int y) edge = Inr p \<and> length p = channels img"
        by (rule lin_total(2) [OF w(1)]) (simp add: w(2))
    qed
    then show ?thesis unfolding pass2_def using False
      emap_table_shape [where f = "\<lambda>x y. ylin inter (channels img) x (yr * of_int y) edge"
          and xs = "py_range XNEW" and ys = "py_range YNEW" and Z = "channels img"]
      by (simp add: length_py_range)
  qed
  then show ?thesis unfolding eq i(1) ebind_Inr .
qed

subsection \<open>Binary64 arithmetic at the midpoint of a cell\<close>


















section \<open>Claims\<close>

subsection \<open>C1: a target size of one\<close>

text \<open>
  C1 as stated: \<open>rescale\<close> with \<open>newWidth = 1\<close> or \<open>newHeight = 1\<close> fails with an
  argument-validation error (\<open>ValueError\<close> is the one \<open>rescale\<close> raises for a bad
  argument) and does not let the division fault through. On the 2 by 2 image below
  both methods let \<open>ZeroDivisionError\<close> through.
\<close>

theorem rescale_size_one_counterexample:
  "rescale [[[0], [100]], [[200], [255]]] 1 3 (StrArg ''repeat'') (StrArg ''bilinear'')
     = Inl ZeroDivisionError
   \<and> rescale [[[0], [100]], [[200], [255]]] 3 1 (StrArg ''repeat'') (StrArg ''barycentric'')
     = Inl ZeroDivisionError
   \<and> rescale [[[0], [100]], [[200], [255]]] 1 3 (StrArg ''repeat'') (StrArg ''bilinear'')
     \<noteq> Inl ValueError"
  by code_simp

text \<open>
  C1, amended: for the Bilinear and the Barycentric method, \<open>rescale\<close> with
  \<open>newWidth = 1\<close> or \<open>newHeight = 1\<close> never returns an image: it fails with
  \<open>ZeroDivisionError\<close> on every image that has a row and a pixel in its first row,
  and with \<open>IndexError\<close> on an image that has none.
\<close>

theorem rescale_size_one_fails:
  assumes "is_bilinear method \<or> is_barycentric method" and "XNEW = 1 \<or> YNEW = 1"
  shows "rescale img XNEW YNEW edge method =
           (if img = [] \<or> hd img = [] then Inl IndexError else Inl ZeroDivisionError)"
proof (cases "img = [] \<or> hd img = []")
  case True
  then have "sizes img = Inl IndexError" by (rule sizes_empty)
  then show ?thesis using assms(1) True
    by (auto simp add: rescale_def rescale_bilinear_def rescale_barycentric_def ebind_Inl
          is_bilinear_def is_barycentric_def)
next
  case False
  then have "sizes img = Inr (int (length img), int (length (hd img)), length (hd (hd img)))"
    using sizes_nonempty [of img] by simp
  then show ?thesis using assms False
    by (auto simp add: rescale_def rescale_bilinear_def rescale_barycentric_def ebind_Inr
          is_bilinear_def is_barycentric_def)
qed

theorem rescale_size_one_fails_witness:
  "(is_bilinear (IntArg 2) \<or> is_barycentric (IntArg 2)) \<and> ((1::int) = 1 \<or> (5::int) = 1)
   \<and> rescale [[[7]], [[9]]] 1 5 (IntArg 2) (IntArg 2) = Inl ZeroDivisionError"
  using rescale_size_one_fails [of "IntArg 2" 1 5 "[[[7]], [[9]]]" "IntArg 2"]
  by (simp add: is_barycentric_def)

subsection \<open>C3: nearest neighbour at a negative coordinate\<close>

text \<open>
  C3: the nearest-neighbour method floors \<open>x\<close> and \<open>y\<close>, so that at \<open>x = -0.5\<close> under
  Wrap it reads the cell \<open>floor(-0.5) = -1\<close>. \<open>pixel\<close> hands the coordinate to
  \<open>src\<close>, which takes \<open>int(x)\<close>: on the one-row image \<open>[[[10], [20]]]\<close> it reads
  cell \<open>0\<close>, the pixel \<open>[10]\<close>, where the floored cell \<open>-1\<close> is the pixel
  \<open>[20]\<close>. The lower cell that \<open>blin\<close> and \<open>baryc\<close> compute for the same
  coordinate is the floor.
\<close>

theorem nearest_wrap_truncates:
  "pixel [[[10], [20]]] (- 1 / 2) 0 (StrArg ''wrap'') (StrArg ''nearest'') = Inr [10]
   \<and> src [[[10], [20]]] (of_int \<lfloor>- 1 / 2 :: real\<rfloor>) 0 (StrArg ''wrap'') = Inr [20]
   \<and> cell (- 1 / 2) = \<lfloor>- 1 / 2 :: real\<rfloor>"
  by code_simp

subsection \<open>C7: the 2 by 2 example\<close>

text \<open>
  C7: on the one-channel image \<open>[[0, 100], [200, 255]]\<close>,
  \<open>rescale(src, 3, 3, Repeat, Bilinear)\<close> is the result of the row pass to width 3
  followed by the column pass to height 3, and its centre pixel is 138, the truncated
  mean of the four source samples.
\<close>

theorem rescale_example_two_pass:
  "emap (\<lambda>y. emap (\<lambda>x. xlin [[[0], [100]], [[200], [255]]] 1 (1 / 2 * of_int x) y
                           (StrArg ''repeat''))
                   (py_range 3)) (py_range 2)
     = Inr [[[0], [50], [100]], [[200], [227], [255]]]
   \<and> emap (\<lambda>y. emap (\<lambda>x. ylin [[[0], [50], [100]], [[200], [227], [255]]] 1 x
                             (1 / 2 * of_int y) (StrArg ''repeat''))
                     (py_range 3)) (py_range 3)
     = Inr [[[0], [50], [100]], [[100], [138], [177]], [[200], [227], [255]]]
   \<and> rescale [[[0], [100]], [[200], [255]]] 3 3 (StrArg ''repeat'') (StrArg ''bilinear'')
     = Inr [[[0], [50], [100]], [[100], [138], [177]], [[200], [227], [255]]]
   \<and> [[[0], [50], [100]], [[100], [138], [177]], [[200], [227], [255 :: int]]] ! 1 ! 1
     = [py_int ((0 + 100 + 200 + 255) / 4)]
   \<and> py_int ((0 + 100 + 200 + 255) / 4) = 138"
  by code_simp

subsection \<open>C5: a direct hit\<close>

text \<open>
  C5: on an image that satisfies the shape invariant, for every edge value and each of
  the methods Nearest, Bilinear and Barycentric, the pixel read at an integer
  coordinate \<open>(x, y)\<close> with \<open>0 \<le> x \<le> W - 1\<close> and \<open>0 \<le> y \<le> H - 1\<close> is the
  source pixel itself.
\<close>

theorem pixel_direct_hit:
  assumes "wf_image img"
    and "0 \<le> i" "i \<le> int (width img) - 1" "0 \<le> j" "j \<le> int (length img) - 1"
    and "is_nearest method \<or> is_bilinear method \<or> is_barycentric method"
  shows "pixel img (of_int i) (of_int j) edge method = Inr (img ! nat j ! nat i)"
proof -
  have c: "cell (of_int i) = i" "cell (of_int j) = j"
    using assms(2,4) by (simp_all add: cell_of_nonneg)
  have s: "src img (of_int i) (of_int j) edge = Inr (img ! nat j ! nat i)"
    using assms(2-5) by (intro src_at_int [OF assms(1)]) linarith+
  have b: "blin img (of_int i) (of_int j) edge = Inr (img ! nat j ! nat i)"
    using blin_direct [OF sizes_wf [OF assms(1)], of "of_int i" "of_int j" edge] c s by simp
  have t: "baryc img (of_int i) (of_int j) edge = Inr (img ! nat j ! nat i)"
    using baryc_direct [OF sizes_wf [OF assms(1)], of "of_int i" "of_int j" edge] c s by simp
  show ?thesis using assms(6) s b t
    by (auto simp add: pixel_def is_nearest_def is_bilinear_def is_barycentric_def)
qed

theorem pixel_direct_hit_witness:
  "wf_image [[[1, 2], [3, 4]], [[5, 6], [7, 8]]]
   \<and> pixel [[[1, 2], [3, 4]], [[5, 6], [7, 8]]] 1 0 (StrArg ''wrap'') (StrArg ''barycentric'')
       = Inr [3, 4]"
proof -
  have w: "wf_image [[[1, 2], [3, 4]], [[5, 6], [7, 8]]]" by code_simp
  show ?thesis
    using w pixel_direct_hit [OF w, of 1 0 "StrArg ''barycentric''" "StrArg ''wrap''"]
    by (simp add: width_def is_barycentric_def)
qed

subsection \<open>C4: rescaling to the same size\<close>

text \<open>
  C4 as stated: for every image of width \<open>W \<ge> 1\<close> and height \<open>H \<ge> 1\<close>,
  \<open>rescale(image, W, H, edge, method)\<close> returns the source image. On the 1 by 1 image
  \<open>[[[5]]]\<close> both methods fail instead, dividing \<open>X - 1\<close> by \<open>XNEW - 1 = 0\<close>.
\<close>

theorem rescale_same_size_counterexample:
  "rescale [[[5]]] 1 1 (StrArg ''repeat'') (StrArg ''bilinear'') = Inl ZeroDivisionError
   \<and> rescale [[[5]]] 1 1 (StrArg ''repeat'') (StrArg ''barycentric'') = Inl ZeroDivisionError"
  by code_simp

text \<open>
  C4, amended: for every image that satisfies the shape invariant with width
  \<open>W \<ge> 2\<close> and height \<open>H \<ge> 2\<close>, every edge value and both methods,
  \<open>rescale(image, W, H, edge, method)\<close> returns the source image itself.
\<close>

theorem rescale_same_size_identity:
  assumes "wf_image img" "2 \<le> width img" "2 \<le> length img"
    and "is_bilinear method \<or> is_barycentric method"
  shows "rescale img (int (width img)) (int (length img)) edge method = Inr img"
  using assms(4) rescale_bilinear_same_size [OF assms(1-3)] rescale_barycentric_same_size [OF assms(1-3)]
  by (auto simp add: rescale_def is_bilinear_def is_barycentric_def)

theorem rescale_same_size_identity_witness:
  "wf_image [[[1], [2]], [[3], [4]], [[5], [6]]]
   \<and> rescale [[[1], [2]], [[3], [4]], [[5], [6]]] 2 3 (IntArg 0) (IntArg 2)
        = Inr [[[1], [2]], [[3], [4]], [[5], [6]]]"
proof -
  have w: "wf_image [[[1], [2]], [[3], [4]], [[5], [6]]]" by code_simp
  show ?thesis
    using w rescale_same_size_identity [OF w, of "IntArg 2" "IntArg 0"]
    by (simp add: width_def is_barycentric_def)
qed

subsection \<open>C10: any other edge value\<close>

text \<open>
  C10: an edge value other than \<open>1\<close>, \<open>'repeat'\<close>, \<open>2\<close> and \<open>'wrap'\<close> raises
  nothing of its own: \<open>src\<close>, \<open>pixel\<close>, \<open>displace\<close> and \<open>rescale\<close> return with it
  exactly what they return with the edge value \<open>0\<close> (the default of \<open>displace\<close> and
  \<open>rescale\<close>), and on an image that satisfies the shape invariant \<open>src\<close> returns
  \<open>Z\<close> zeros at a coordinate outside \<open>[0, W - 1] \<times> [0, H - 1]\<close> and the pixel
  itself at a coordinate inside.
\<close>

theorem other_edge_is_zero_mode:
  assumes "edge \<notin> {IntArg 1, StrArg ''repeat'', IntArg 2, StrArg ''wrap''}"
  shows "src img x y edge = src img x y (IntArg 0)
       \<and> pixel img x y edge method = pixel img x y (IntArg 0) method
       \<and> displace img fx fy XNEW YNEW edge method = displace img fx fy XNEW YNEW (IntArg 0) method
       \<and> rescale img XNEW YNEW edge method = rescale img XNEW YNEW (IntArg 0) method
       \<and> (wf_image img \<longrightarrow>
            src img x y edge =
              Inr (if outside img x y then replicate (channels img) 0
                   else img ! nat (py_int y) ! nat (py_int x)))"
proof -
  have e: "\<not> is_repeat edge" "\<not> is_wrap edge"
    using assms by (simp_all add: is_repeat_def is_wrap_def)
  have 1: "src img x y edge = src img x y (IntArg 0)" by (rule src_default [OF e])
  have 2: "pixel img x y edge method = pixel img x y (IntArg 0) method"
    by (simp only: pixel_def src_default [OF e] blin_default [OF e] baryc_default [OF e])
  have 3: "displace img fx fy XNEW YNEW edge method = displace img fx fy XNEW YNEW (IntArg 0) method"
    by (simp only: displace_def displace_bilinear_def displace_barycentric_def
          blin_default [OF e] baryc_default [OF e])
  have 4: "rescale img XNEW YNEW edge method = rescale img XNEW YNEW (IntArg 0) method"
    by (simp only: rescale_def rescale_bilinear_def rescale_barycentric_def
          xlin_default [OF e] ylin_default [OF e] baryc_default [OF e])
  have 5: "wf_image img \<longrightarrow>
            src img x y edge =
              Inr (if outside img x y then replicate (channels img) 0
                   else img ! nat (py_int y) ! nat (py_int x))"
    using src_zero_mode [OF _ e] by blast
  show ?thesis using 1 2 3 4 5 by blast
qed

theorem other_edge_is_zero_mode_witness:
  "StrArg ''zero'' \<notin> {IntArg 1, StrArg ''repeat'', IntArg 2, StrArg ''wrap''}
   \<and> wf_image [[[10], [20]], [[30], [40]]]
   \<and> src [[[10], [20]], [[30], [40]]] 2 0 (StrArg ''zero'') = Inr [0]
   \<and> rescale [[[10], [20]], [[30], [40]]] 3 2 (StrArg ''zero'') (IntArg 1)
       = Inr [[[10], [15], [20]], [[30], [35], [40]]]"
proof -
  have n: "StrArg ''zero'' \<notin> {IntArg 1, StrArg ''repeat'', IntArg 2, StrArg ''wrap''}" by simp
  have w: "wf_image [[[10], [20]], [[30], [40]]]" by code_simp
  have o: "outside [[[10], [20]], [[30], [40]]] 2 0" by (simp add: outside_def width_def)
  have c: "channels [[[10], [20]], [[30], [40]]] = 1" by (simp add: channels_def)
  have z: "rescale [[[10], [20]], [[30], [40]]] 3 2 (IntArg 0) (IntArg 1)
       = Inr [[[10], [15], [20]], [[30], [35], [40]]]" by code_simp
  note t = other_edge_is_zero_mode [OF n, of "[[[10], [20]], [[30], [40]]]" 2 0 "IntArg 1"
        "\<lambda>x y. 0" "\<lambda>x y. 0" 3 2]
  from t w have "src [[[10], [20]], [[30], [40]]] 2 0 (StrArg ''zero'') =
     Inr (if outside [[[10], [20]], [[30], [40]]] 2 0
          then replicate (channels [[[10], [20]], [[30], [40]]]) 0
          else [[[10], [20]], [[30], [40]]] ! nat (py_int 0) ! nat (py_int 2))" by blast
  then have a: "src [[[10], [20]], [[30], [40]]] 2 0 (StrArg ''zero'') = Inr [0]"
    using o c by simp
  from t have "rescale [[[10], [20]], [[30], [40]]] 3 2 (StrArg ''zero'') (IntArg 1)
       = rescale [[[10], [20]], [[30], [40]]] 3 2 (IntArg 0) (IntArg 1)" by blast
  then have b: "rescale [[[10], [20]], [[30], [40]]] 3 2 (StrArg ''zero'') (IntArg 1)
       = Inr [[[10], [15], [20]], [[30], [35], [40]]]" using z by simp
  show ?thesis using n w a b by blast
qed

subsection \<open>C8: the bilinear weights\<close>




subsection \<open>C2: the tie between the two diagonals\<close>

text \<open>
  C2 as stated: when the absolute difference of the colour sums of corners 1 and 3
  equals that of corners 2 and 4, the barycentric kernel splits the square along the
  1-3 diagonal. On the image \<open>[[0, 20], [10, 10]]\<close> the two differences are both 10;
  at \<open>(0.5, 0.5)\<close> the kernel returns 15, the value of the triangle 2-3-4 of the
  2-4 split, where the triangle 1-2-3 of the 1-3 split gives 5.
\<close>

theorem baryc_tie_counterexample:
  "\<bar>colour_sum (Z_COLOR 1) [0] - colour_sum (Z_COLOR 1) [10]\<bar>
      = \<bar>colour_sum (Z_COLOR 1) [20] - colour_sum (Z_COLOR 1) [10]\<bar>
   \<and> \<not> diagonal13 (Z_COLOR 1) [0] [20] [10] [10]
   \<and> baryc [[[0], [20]], [[10], [10]]] (1 / 2) (1 / 2) (IntArg 1) = Inr [15]
   \<and> triangle234 1 (1 / 2) (1 / 2) 0 0 [20] [10] [10] = [15]
   \<and> triangle123 1 (1 / 2) (1 / 2) 0 0 [0] [20] [10] = [5]"
  by code_simp

text \<open>
  C2, amended: for every image, coordinate that is not a direct hit and edge value
  for which the four corners are read: when the two absolute differences are equal the
  test \<open><\<close> is false and the kernel splits the square along the 2-4 diagonal (its
  result is that of the triangle 1-2-4 or of the triangle 2-3-4); it does the same when
  the difference of corners 1 and 3 is the larger one; and it splits along the 1-3
  diagonal (triangle 1-3-4 or triangle 1-2-3) exactly when the difference of corners 1
  and 3 is strictly the smaller one.
\<close>

theorem baryc_tie_splits_24:
  assumes "sizes img = Inr (Y, X, Z)"
    and "\<not> (x = of_int (cell x) \<and> y = of_int (cell y))"
    and "src img (of_int (cell x)) (of_int (cell y)) edge = Inr p1"
    and "src img (of_int (cell x + 1)) (of_int (cell y)) edge = Inr p2"
    and "src img (of_int (cell x + 1)) (of_int (cell y + 1)) edge = Inr p3"
    and "src img (of_int (cell x)) (of_int (cell y + 1)) edge = Inr p4"
  shows "(\<bar>colour_sum (Z_COLOR Z) p1 - colour_sum (Z_COLOR Z) p3\<bar>
            = \<bar>colour_sum (Z_COLOR Z) p2 - colour_sum (Z_COLOR Z) p4\<bar> \<longrightarrow>
          \<not> diagonal13 (Z_COLOR Z) p1 p2 p3 p4
          \<and> baryc img x y edge =
              (if x - of_int (cell x) < of_int (cell y + 1) - y
               then Inr (triangle124 Z x y (cell x) (cell y) p1 p2 p4)
               else Inr (triangle234 Z x y (cell x) (cell y) p2 p3 p4)))
       \<and> (\<bar>colour_sum (Z_COLOR Z) p1 - colour_sum (Z_COLOR Z) p3\<bar>
            > \<bar>colour_sum (Z_COLOR Z) p2 - colour_sum (Z_COLOR Z) p4\<bar> \<longrightarrow>
          baryc img x y edge =
              (if x - of_int (cell x) < of_int (cell y + 1) - y
               then Inr (triangle124 Z x y (cell x) (cell y) p1 p2 p4)
               else Inr (triangle234 Z x y (cell x) (cell y) p2 p3 p4)))
       \<and> (\<bar>colour_sum (Z_COLOR Z) p1 - colour_sum (Z_COLOR Z) p3\<bar>
            < \<bar>colour_sum (Z_COLOR Z) p2 - colour_sum (Z_COLOR Z) p4\<bar> \<longrightarrow>
          baryc img x y edge =
              (if x - of_int (cell x) < y - of_int (cell y)
               then Inr (triangle134 Z x y (cell x) (cell y) p1 p3 p4)
               else Inr (triangle123 Z x y (cell x) (cell y) p1 p2 p3)))"
proof (intro conjI impI)
  assume "\<bar>colour_sum (Z_COLOR Z) p1 - colour_sum (Z_COLOR Z) p3\<bar>
            = \<bar>colour_sum (Z_COLOR Z) p2 - colour_sum (Z_COLOR Z) p4\<bar>"
  then have d: "\<not> diagonal13 (Z_COLOR Z) p1 p2 p3 p4" by (simp add: diagonal13_def)
  show "\<not> diagonal13 (Z_COLOR Z) p1 p2 p3 p4" by (rule d)
  show "baryc img x y edge =
              (if x - of_int (cell x) < of_int (cell y + 1) - y
               then Inr (triangle124 Z x y (cell x) (cell y) p1 p2 p4)
               else Inr (triangle234 Z x y (cell x) (cell y) p2 p3 p4))"
    using d baryc_miss [OF assms(1-6)] by simp
next
  assume "\<bar>colour_sum (Z_COLOR Z) p1 - colour_sum (Z_COLOR Z) p3\<bar>
            > \<bar>colour_sum (Z_COLOR Z) p2 - colour_sum (Z_COLOR Z) p4\<bar>"
  then have d: "\<not> diagonal13 (Z_COLOR Z) p1 p2 p3 p4" by (simp add: diagonal13_def)
  show "baryc img x y edge =
              (if x - of_int (cell x) < of_int (cell y + 1) - y
               then Inr (triangle124 Z x y (cell x) (cell y) p1 p2 p4)
               else Inr (triangle234 Z x y (cell x) (cell y) p2 p3 p4))"
    using d baryc_miss [OF assms(1-6)] by simp
next
  assume "\<bar>colour_sum (Z_COLOR Z) p1 - colour_sum (Z_COLOR Z) p3\<bar>
            < \<bar>colour_sum (Z_COLOR Z) p2 - colour_sum (Z_COLOR Z) p4\<bar>"
  then have d: "diagonal13 (Z_COLOR Z) p1 p2 p3 p4" by (simp add: diagonal13_def)
  show "baryc img x y edge =
              (if x - of_int (cell x) < y - of_int (cell y)
               then Inr (triangle134 Z x y (cell x) (cell y) p1 p3 p4)
               else Inr (triangle123 Z x y (cell x) (cell y) p1 p2 p3))"
    using d baryc_miss [OF assms(1-6)] by simp
qed

theorem baryc_tie_splits_24_witness:
  "baryc [[[0], [20]], [[10], [10]]] (1 / 2) (1 / 2) (IntArg 1)
     = Inr (triangle234 1 (1 / 2) (1 / 2) 0 0 [20] [10] [10])
   \<and> \<not> diagonal13 (Z_COLOR 1) [0] [20] [10] [10]
   \<and> baryc [[[0], [20]], [[10], [40]]] (1 / 2) (1 / 2) (IntArg 1)
     = Inr (triangle234 1 (1 / 2) (1 / 2) 0 0 [20] [40] [10])
   \<and> baryc [[[0], [20]], [[0], [5]]] (1 / 2) (1 / 2) (IntArg 1)
     = Inr (triangle123 1 (1 / 2) (1 / 2) 0 0 [0] [20] [5])"
proof -
  have c: "cell (1 / 2) = 0" by code_simp
  have m: "\<not> ((1 / 2 :: real) = of_int (cell (1 / 2)) \<and> (1 / 2 :: real) = of_int (cell (1 / 2)))"
    by (simp add: c)
  have a1: "sizes [[[0], [20]], [[10], [10]]] = Inr (2, 2, 1)" by code_simp
  have a3: "src [[[0], [20]], [[10], [10]]] (of_int (cell (1 / 2))) (of_int (cell (1 / 2))) (IntArg 1) = Inr [0]"
    and a4: "src [[[0], [20]], [[10], [10]]] (of_int (cell (1 / 2) + 1)) (of_int (cell (1 / 2))) (IntArg 1) = Inr [20]"
    and a5: "src [[[0], [20]], [[10], [10]]] (of_int (cell (1 / 2) + 1)) (of_int (cell (1 / 2) + 1)) (IntArg 1) = Inr [10]"
    and a6: "src [[[0], [20]], [[10], [10]]] (of_int (cell (1 / 2))) (of_int (cell (1 / 2) + 1)) (IntArg 1) = Inr [10]"
    by code_simp+
  have a7: "\<bar>colour_sum (Z_COLOR 1) [0] - colour_sum (Z_COLOR 1) [10]\<bar>
           = \<bar>colour_sum (Z_COLOR 1) [20] - colour_sum (Z_COLOR 1) [10]\<bar>" by code_simp
  have A: "\<not> diagonal13 (Z_COLOR 1) [0] [20] [10] [10]
       \<and> baryc [[[0], [20]], [[10], [10]]] (1 / 2) (1 / 2) (IntArg 1)
           = Inr (triangle234 1 (1 / 2) (1 / 2) 0 0 [20] [10] [10])"
    using baryc_tie_splits_24 [OF a1 m a3 a4 a5 a6] a7 by (simp add: c)
  have b1: "sizes [[[0], [20]], [[10], [40]]] = Inr (2, 2, 1)" by code_simp
  have b3: "src [[[0], [20]], [[10], [40]]] (of_int (cell (1 / 2))) (of_int (cell (1 / 2))) (IntArg 1) = Inr [0]"
    and b4: "src [[[0], [20]], [[10], [40]]] (of_int (cell (1 / 2) + 1)) (of_int (cell (1 / 2))) (IntArg 1) = Inr [20]"
    and b5: "src [[[0], [20]], [[10], [40]]] (of_int (cell (1 / 2) + 1)) (of_int (cell (1 / 2) + 1)) (IntArg 1) = Inr [40]"
    and b6: "src [[[0], [20]], [[10], [40]]] (of_int (cell (1 / 2))) (of_int (cell (1 / 2) + 1)) (IntArg 1) = Inr [10]"
    by code_simp+
  have b7: "\<bar>colour_sum (Z_COLOR 1) [0] - colour_sum (Z_COLOR 1) [40]\<bar>
           > \<bar>colour_sum (Z_COLOR 1) [20] - colour_sum (Z_COLOR 1) [10]\<bar>" by code_simp
  have B: "baryc [[[0], [20]], [[10], [40]]] (1 / 2) (1 / 2) (IntArg 1)
           = Inr (triangle234 1 (1 / 2) (1 / 2) 0 0 [20] [40] [10])"
    using baryc_tie_splits_24 [OF b1 m b3 b4 b5 b6] b7 by (simp add: c)
  have c1: "sizes [[[0], [20]], [[0], [5]]] = Inr (2, 2, 1)" by code_simp
  have c3: "src [[[0], [20]], [[0], [5]]] (of_int (cell (1 / 2))) (of_int (cell (1 / 2))) (IntArg 1) = Inr [0]"
    and c4: "src [[[0], [20]], [[0], [5]]] (of_int (cell (1 / 2) + 1)) (of_int (cell (1 / 2))) (IntArg 1) = Inr [20]"
    and c5: "src [[[0], [20]], [[0], [5]]] (of_int (cell (1 / 2) + 1)) (of_int (cell (1 / 2) + 1)) (IntArg 1) = Inr [5]"
    and c6: "src [[[0], [20]], [[0], [5]]] (of_int (cell (1 / 2))) (of_int (cell (1 / 2) + 1)) (IntArg 1) = Inr [0]"
    by code_simp+
  have c7: "\<bar>colour_sum (Z_COLOR 1) [0] - colour_sum (Z_COLOR 1) [5]\<bar>
           < \<bar>colour_sum (Z_COLOR 1) [20] - colour_sum (Z_COLOR 1) [0]\<bar>" by code_simp
  have C: "baryc [[[0], [20]], [[0], [5]]] (1 / 2) (1 / 2) (IntArg 1)
           = Inr (triangle123 1 (1 / 2) (1 / 2) 0 0 [0] [20] [5])"
    using baryc_tie_splits_24 [OF c1 m c3 c4 c5 c6] c7 by (simp add: c)
  show ?thesis using A B C by blast
qed

subsection \<open>C6: the Zero edge outside the image\<close>

text \<open>
  C6 as stated: with the Zero edge, every method returns \<open>Z\<close> zeros at every
  coordinate outside \<open>[0, W - 1] \<times> [0, H - 1]\<close>. On the 1 by 1 image \<open>[[[100]]]\<close>
  the coordinate \<open>(-0.5, 0)\<close> is outside, and both the bilinear and the barycentric
  kernel return 50 there: they blend the border pixel with the zeros around it.
\<close>

theorem zero_edge_blend_counterexample:
  "outside [[[100]]] (- 1 / 2) 0
   \<and> pixel [[[100]]] (- 1 / 2) 0 (IntArg 0) (StrArg ''bilinear'') = Inr [50]
   \<and> pixel [[[100]]] (- 1 / 2) 0 (IntArg 0) (StrArg ''barycentric'') = Inr [50]"
  by code_simp

text \<open>
  C6, amended: on an image that satisfies the shape invariant and with an edge value
  other than \<open>1\<close>, \<open>'repeat'\<close>, \<open>2\<close>, \<open>'wrap'\<close>, the Nearest method returns
  \<open>Z\<close> zeros at every coordinate outside \<open>[0, W - 1] \<times> [0, H - 1]\<close>, and the
  Bilinear and Barycentric methods return \<open>Z\<close> zeros at every coordinate with
  \<open>x \<le> -1\<close>, \<open>y \<le> -1\<close>, \<open>x \<ge> W\<close> or \<open>y \<ge> H\<close>.
\<close>

theorem zero_edge_outside_is_zero:
  assumes "wf_image img"
    and "edge \<notin> {IntArg 1, StrArg ''repeat'', IntArg 2, StrArg ''wrap''}"
    and "(is_nearest method \<and> outside img x y)
         \<or> ((is_bilinear method \<or> is_barycentric method) \<and> far_outside img x y)"
  shows "pixel img x y edge method = Inr (replicate (channels img) 0)"
proof -
  have e: "\<not> is_repeat edge" "\<not> is_wrap edge"
    using assms(2) by (simp_all add: is_repeat_def is_wrap_def)
  from assms(3) show ?thesis
  proof
    assume a: "is_nearest method \<and> outside img x y"
    then have "pixel img x y edge method = src img x y edge"
      by (auto simp add: pixel_def is_nearest_def)
    then show ?thesis using src_zero_outside [OF assms(1) e] a by simp
  next
    assume a: "(is_bilinear method \<or> is_barycentric method) \<and> far_outside img x y"
    then have f: "far_outside img x y" by blast
    from a have "pixel img x y edge method = blin img x y edge
               \<or> pixel img x y edge method = baryc img x y edge"
      by (auto simp add: pixel_def is_bilinear_def is_barycentric_def)
    then show ?thesis
      using blin_far_outside [OF assms(1) e f] baryc_far_outside [OF assms(1) e f] by auto
  qed
qed

theorem zero_edge_outside_is_zero_witness:
  "wf_image [[[100, 50]]]
   \<and> far_outside [[[100, 50]]] (- 3 / 2) 0
   \<and> pixel [[[100, 50]]] (- 3 / 2) 0 (IntArg 0) (StrArg ''bilinear'') = Inr [0, 0]
   \<and> outside [[[100, 50]]] (- 1 / 2) 0
   \<and> pixel [[[100, 50]]] (- 1 / 2) 0 (IntArg 0) (StrArg ''nearest'') = Inr [0, 0]"
proof -
  have w: "wf_image [[[100, 50]]]" by code_simp
  have n: "IntArg 0 \<notin> {IntArg 1, StrArg ''repeat'', IntArg 2, StrArg ''wrap''}" by simp
  have f: "far_outside [[[100, 50]]] (- 3 / 2) 0" by (simp add: far_outside_def)
  have o: "outside [[[100, 50]]] (- 1 / 2) 0" by (simp add: outside_def)
  have c: "replicate (channels [[[100, 50]]]) 0 = [0, 0 :: int]" by (simp add: channels_def)
  have b: "is_bilinear (StrArg ''bilinear'')" by (simp add: is_bilinear_def)
  have m: "is_nearest (StrArg ''nearest'')" by (simp add: is_nearest_def)
  have 1: "pixel [[[100, 50]]] (- 3 / 2) 0 (IntArg 0) (StrArg ''bilinear'') = Inr [0, 0]"
    using zero_edge_outside_is_zero [OF w n, of "StrArg ''bilinear''" "- 3 / 2" 0] b f c by simp
  have 2: "pixel [[[100, 50]]] (- 1 / 2) 0 (IntArg 0) (StrArg ''nearest'') = Inr [0, 0]"
    using zero_edge_outside_is_zero [OF w n, of "StrArg ''nearest''" "- 1 / 2" 0] m o c by simp
  show ?thesis using w f o 1 2 by blast
qed

subsection \<open>C9: the shape of the result\<close>

text \<open>
  C9: on a source image that satisfies the shape invariant, \<open>displace\<close> returns an
  image, and so does \<open>rescale\<close> when neither target size is 1; the image returned has
  \<open>YNEW\<close> rows, every row has \<open>XNEW\<close> pixels, and every pixel has as many channels
  as the pixels of the source.
\<close>

theorem drivers_return_shaped_images:
  assumes "wf_image img" and "is_bilinear method \<or> is_barycentric method"
    and "0 \<le> XNEW" and "0 \<le> YNEW"
  shows "(\<exists>out. displace img fx fy XNEW YNEW edge method = Inr out
               \<and> has_shape out (nat YNEW) (nat XNEW) (channels img))
       \<and> (XNEW \<noteq> 1 \<and> YNEW \<noteq> 1 \<longrightarrow>
            (\<exists>out. rescale img XNEW YNEW edge method = Inr out
                   \<and> has_shape out (nat YNEW) (nat XNEW) (channels img)))"
proof (intro conjI impI)
  show "\<exists>out. displace img fx fy XNEW YNEW edge method = Inr out
               \<and> has_shape out (nat YNEW) (nat XNEW) (channels img)"
    by (rule displace_shape [OF assms(1,2)])
next
  assume "XNEW \<noteq> 1 \<and> YNEW \<noteq> 1"
  then have n: "XNEW \<noteq> 1" "YNEW \<noteq> 1" by simp_all
  show "\<exists>out. rescale img XNEW YNEW edge method = Inr out
               \<and> has_shape out (nat YNEW) (nat XNEW) (channels img)"
    using assms(2) rescale_bilinear_shape [OF assms(1) n, of edge]
      rescale_barycentric_shape [OF assms(1) n, of edge]
    by (auto simp add: rescale_def is_bilinear_def is_barycentric_def)
qed

theorem drivers_return_shaped_images_witness:
  "wf_image [[[1, 2], [3, 4]], [[5, 6], [7, 8]]]
   \<and> (\<exists>out. displace [[[1, 2], [3, 4]], [[5, 6], [7, 8]]]
               (\<lambda>x y. of_int x / 2) (\<lambda>x y. of_int y / 3) 3 4 (IntArg 1) (IntArg 2) = Inr out
            \<and> has_shape out 4 3 2)
   \<and> (\<exists>out. rescale [[[1, 2], [3, 4]], [[5, 6], [7, 8]]] 3 4 (IntArg 1) (IntArg 1) = Inr out
            \<and> has_shape out 4 3 2)"
proof -
  have w: "wf_image [[[1, 2], [3, 4]], [[5, 6], [7, 8]]]" by code_simp
  have c: "channels [[[1, 2], [3, 4]], [[5, 6], [7, 8]]] = 2" by (simp add: channels_def)
  have m: "is_bilinear (IntArg 2) \<or> is_barycentric (IntArg 2)"
          "is_bilinear (IntArg 1) \<or> is_barycentric (IntArg 1)"
    by (simp_all add: is_bilinear_def is_barycentric_def)
  have p: "(0::int) \<le> 3" "(0::int) \<le> 4" by simp_all
  have d: "\<exists>out. displace [[[1, 2], [3, 4]], [[5, 6], [7, 8]]]
               (\<lambda>x y. of_int x / 2) (\<lambda>x y. of_int y / 3) 3 4 (IntArg 1) (IntArg 2) = Inr out
            \<and> has_shape out 4 3 2"
    using drivers_return_shaped_images [OF w m(1) p, where edge = "IntArg 1"
        and fx = "\<lambda>x y. of_int x / 2" and fy = "\<lambda>x y. of_int y / 3"] c by simp
  have r: "\<exists>out. rescale [[[1, 2], [3, 4]], [[5, 6], [7, 8]]] 3 4 (IntArg 1) (IntArg 1) = Inr out
            \<and> has_shape out 4 3 2"
    using drivers_return_shaped_images [OF w m(2) p, where edge = "IntArg 1"] c by simp
  show ?thesis using w d r by blast
qed

end
